theory Spec2Isabelle
  imports Complex_Main
begin

section \<open>Data model of classification/train.py and classification/inference.py\<close>

text \<open>
  The training script drives collaborators that live in the \<^verbatim>\<open>utilities\<close> package
  (network, optimizer, schedulers, top-k accuracy). They are parameters of the model
  (record \<open>env\<close>); everything the two source files compute themselves is translated
  line by line. Floating-point numbers are read as reals, argparse integers as naturals.
  Every place where Python raises is a branch returning \<open>Inl\<close> of the exception.
\<close>

datatype error =
    ValueError          \<comment> \<open>tuple unpacking with the wrong number of values\<close>
  | UnboundLocalError   \<comment> \<open>a local name read on a path that never assigned it\<close>
  | ZeroDivisionError   \<comment> \<open>\<^verbatim>\<open>%\<close> or \<^verbatim>\<open>/\<close> by zero\<close>
  | StatisticsError     \<comment> \<open>\<^verbatim>\<open>statistics.mean\<close> of an empty list\<close>
  | RuntimeError        \<comment> \<open>torch: shapes that do not broadcast, empty random range\<close>
  | IndexError          \<comment> \<open>torch: index into a dimension of size 0\<close>

type_synonym tensor2 = "int list list"

record args =
  multimodal :: bool
  mask_schedule :: bool
  exclusion_loss :: bool
  debugging :: bool
  exclusion_weight :: real
  temperature :: real
  max_text_seq_len :: nat
  log_freq :: nat
  epoch_decay :: nat
  no_epochs :: nat
  inference_mode :: string
  masking_behavior :: string

text \<open>
  A batch of the data loader: \<^verbatim>\<open>(images, labels)\<close> or
  \<^verbatim>\<open>(images, labels, captions)\<close>. Labels are one class id per example, so
  \<^verbatim>\<open>labels.size(0)\<close> is the length of the list. Captions are kept as the
  \<open>B \<times> T\<close> table that \<^verbatim>\<open>captions.squeeze(dim=1)\<close> yields.
\<close>

datatype 'img batch =
    Batch2 'img "nat list"
  | Batch3 'img "nat list" tensor2

text \<open>
  What a call of the network returns. The tuple's arity depends on the enabled
  objectives; each shape of tuple the source unpacks is one constructor.
\<close>

datatype ('o, 't) model_out =
    Out 'o
  | OutText 'o 't
  | OutExcl 'o real
  | OutTextExcl 'o 't real

text \<open>
  Ghost log of the calls whose order the specification talks about: each query of the
  mask scheduler with the counter value it was given, each optimizer update, each step
  of the learning-rate scheduler, each increment of \<^verbatim>\<open>global_step[0]\<close>, and the
  epoch-wise decay \<^verbatim>\<open>update_lr\<close>.
\<close>

datatype event =
    RetMask nat
  | OptimizerStep
  | LrSchedulerStep
  | StepIncrement
  | UpdateLr

text \<open>
  The collaborators: \<open>'m\<close> is the network's parameters, \<open>'p\<close> the optimizer together
  with the scheduler attached to it (learning rate included), \<open>'r\<close> the random state the
  mask scheduler draws from, \<open>'o\<close> and \<open>'t\<close> the class and text logits.
\<close>

record ('m, 'p, 'r, 'img, 'o, 't) env =
  ret_mask :: "'r \<Rightarrow> nat \<Rightarrow> tensor2 option \<times> 'r"
  forward :: "'m \<Rightarrow> 'img \<Rightarrow> (tensor2 \<times> tensor2 option) option \<Rightarrow> ('o, 't) model_out"
  criterion :: "'o \<Rightarrow> nat list \<Rightarrow> real"
  criterion_text :: "'t \<Rightarrow> tensor2 \<Rightarrow> real"
  accuracy :: "'o \<Rightarrow> nat list \<Rightarrow> nat \<times> nat"
  optimize :: "'m \<Rightarrow> 'p \<Rightarrow> 'img batch \<Rightarrow> tensor2 option \<Rightarrow> 'm \<times> 'p"
  lr_scheduler :: "('p \<Rightarrow> 'p) option"
  update_lr :: "'p \<Rightarrow> 'p"

text \<open>
  Everything the run mutates. \<open>validate_default\<close> is the list object created once for
  the default argument \<^verbatim>\<open>val_loss_avg=[]\<close> of \<^verbatim>\<open>validate\<close>; \<open>checkpoint\<close> is the
  file written by \<^verbatim>\<open>torch.save\<close> and \<open>saved_epochs\<close> the ghost list of the epoch
  numbers at which it was written.
\<close>

record ('m, 'p, 'r) state =
  global_step :: nat
  model :: 'm
  optimizer :: 'p
  rng :: 'r
  events :: "event list"
  train_loss_avg :: "real list"
  val_loss_avg :: "real list"
  top1_accuracies :: "real list"
  top5_accuracies :: "real list"
  validate_default :: "real list"
  top_acc :: real
  best_epoch :: nat
  checkpoint :: "'m option"
  saved_epochs :: "nat list"

section \<open>Tensor helpers\<close>

text \<open>\<^verbatim>\<open>row[-n:]\<close>: the last \<open>n\<close> entries; \<^verbatim>\<open>row[-0:]\<close> is the whole row.\<close>

definition slice_last :: "nat \<Rightarrow> 'a list \<Rightarrow> 'a list" where
  "slice_last n row = (if n = 0 then row else drop (length row - n) row)"

text \<open>Broadcasting of one dimension: equal sizes, or one of them is 1.\<close>

definition broadcast_dim :: "nat \<Rightarrow> nat \<Rightarrow> nat option" where
  "broadcast_dim a b =
     (if a = b then Some a else if a = 1 then Some b else if b = 1 then Some a else None)"

definition expand :: "nat \<Rightarrow> 'a list \<Rightarrow> 'a list" where
  "expand n xs = (if length xs = n then xs else replicate n (hd xs))"

fun sequence :: "(error + 'a) list \<Rightarrow> error + 'a list" where
  "sequence [] = Inr []"
| "sequence (r # rs) =
     (case r of Inl e \<Rightarrow> Inl e
      | Inr x \<Rightarrow> (case sequence rs of Inl e \<Rightarrow> Inl e | Inr xs \<Rightarrow> Inr (x # xs)))"

text \<open>\<^verbatim>\<open>torch.where(cond, v, x)\<close> on one row and on a table.\<close>

definition where_row :: "int \<Rightarrow> bool list \<Rightarrow> int list \<Rightarrow> error + int list" where
  "where_row v c x =
     (case broadcast_dim (length c) (length x) of
        None \<Rightarrow> Inl RuntimeError
      | Some n \<Rightarrow> Inr (map2 (\<lambda>b y. if b then v else y) (expand n c) (expand n x)))"

definition where2 :: "bool list list \<Rightarrow> int \<Rightarrow> tensor2 \<Rightarrow> error + tensor2" where
  "where2 c v x =
     (case broadcast_dim (length c) (length x) of
        None \<Rightarrow> Inl RuntimeError
      | Some n \<Rightarrow> sequence (map2 (where_row v) (expand n c) (expand n x)))"

text \<open>\<^verbatim>\<open>statistics.mean\<close>.\<close>

definition mean :: "real list \<Rightarrow> error + real" where
  "mean xs = (if xs = [] then Inl StatisticsError else Inr (sum_list xs / real (length xs)))"

section \<open>The batch pipeline shared by train_one_epoch and validate\<close>

text \<open>train.py 87-93 and 179-185: unpacking the batch.\<close>

definition unpack_batch ::
  "args \<Rightarrow> 'img batch \<Rightarrow> error + ('img \<times> nat list \<times> tensor2 option)" where
  "unpack_batch a b =
     (if multimodal a then
        (case b of Batch3 images labels captions \<Rightarrow> Inr (images, labels, Some captions)
         | Batch2 _ _ \<Rightarrow> Inl ValueError)
      else
        (case b of Batch2 images labels \<Rightarrow> Inr (images, labels, None)
         | Batch3 _ _ _ \<Rightarrow> Inl ValueError))"

text \<open>
  train.py 97-102 and 188-193, run when \<^verbatim>\<open>masks is not None\<close>: padding (0), [CLS]
  (101) and [SEP] (102) get the ignored label -100, then so does every position whose
  entry in the last \<^verbatim>\<open>max_text_seq_len\<close> columns of the mask is 1.
\<close>

definition text_targets :: "args \<Rightarrow> tensor2 option \<Rightarrow> tensor2 \<Rightarrow> error + tensor2" where
  "text_targets a captions masks =
     (case captions of
        None \<Rightarrow> Inl UnboundLocalError
      | Some caps \<Rightarrow>
          (let labels_text =
                 map (map (\<lambda>c. if c = 0 \<or> c = 101 \<or> c = 102 then - 100 else c)) caps
           in where2 (map (\<lambda>row. map (\<lambda>m. m = 1) (slice_last (max_text_seq_len a) row)) masks)
                (- 100) labels_text))"

text \<open>\<^verbatim>\<open>model(images, text=captions, mask=masks)\<close>.\<close>

definition call_multimodal ::
  "('m, 'p, 'r, 'img, 'o, 't) env \<Rightarrow> 'm \<Rightarrow> 'img \<Rightarrow> tensor2 option \<Rightarrow> tensor2 option
     \<Rightarrow> error + ('o, 't) model_out" where
  "call_multimodal env m images captions masks =
     (case captions of
        None \<Rightarrow> Inl UnboundLocalError
      | Some caps \<Rightarrow> Inr (forward env m images (Some (caps, masks))))"

text \<open>
  train.py 105-116 and 196-207: the six-way forward pass. The result is the triple
  (\<^verbatim>\<open>outputs\<close>, \<^verbatim>\<open>outputs_text\<close>, \<^verbatim>\<open>exclusion_loss\<close>), the last two \<open>None\<close> when
  the branch taken does not bind them. A tuple of another arity than the branch unpacks
  is a \<open>ValueError\<close>.
\<close>

definition forward_pass ::
  "args \<Rightarrow> ('m, 'p, 'r, 'img, 'o, 't) env \<Rightarrow> 'm \<Rightarrow> 'img \<Rightarrow> tensor2 option \<Rightarrow> tensor2 option
     \<Rightarrow> error + ('o \<times> 't option \<times> real option)" where
  "forward_pass a env m images captions masks =
     (if multimodal a \<and> mask_schedule a \<and> exclusion_loss a then
        (case call_multimodal env m images captions masks of
           Inl e \<Rightarrow> Inl e
         | Inr (OutTextExcl outputs outputs_text excl) \<Rightarrow> Inr (outputs, Some outputs_text, Some excl)
         | Inr _ \<Rightarrow> Inl ValueError)
      else if multimodal a \<and> mask_schedule a then
        (case call_multimodal env m images captions masks of
           Inl e \<Rightarrow> Inl e
         | Inr (OutText outputs outputs_text) \<Rightarrow> Inr (outputs, Some outputs_text, None)
         | Inr _ \<Rightarrow> Inl ValueError)
      else if multimodal a \<and> exclusion_loss a then
        (case call_multimodal env m images captions masks of
           Inl e \<Rightarrow> Inl e
         | Inr (OutExcl outputs excl) \<Rightarrow> Inr (outputs, None, Some excl)
         | Inr _ \<Rightarrow> Inl ValueError)
      else if multimodal a then
        (case call_multimodal env m images captions masks of
           Inl e \<Rightarrow> Inl e
         | Inr (Out outputs) \<Rightarrow> Inr (outputs, None, None)
         | Inr _ \<Rightarrow> Inl ValueError)
      else if exclusion_loss a then
        (case forward env m images None of
           OutExcl outputs excl \<Rightarrow> Inr (outputs, None, Some excl)
         | _ \<Rightarrow> Inl ValueError)
      else
        (case forward env m images None of
           Out outputs \<Rightarrow> Inr (outputs, None, None)
         | _ \<Rightarrow> Inl ValueError))"

text \<open>train.py 118-122 and 209-213: the loss.\<close>

definition compose_loss ::
  "args \<Rightarrow> ('m, 'p, 'r, 'img, 'o, 't) env \<Rightarrow> 'o \<Rightarrow> nat list \<Rightarrow> tensor2 option \<Rightarrow> 't option
     \<Rightarrow> tensor2 option \<Rightarrow> real option \<Rightarrow> error + real" where
  "compose_loss a env outputs labels masks outputs_text labels_text excl =
     (let loss = criterion env outputs labels in
      case (case masks of
              None \<Rightarrow> Inr loss
            | Some _ \<Rightarrow>
                (case outputs_text of
                   None \<Rightarrow> Inl UnboundLocalError
                 | Some ot \<Rightarrow>
                     (case labels_text of
                        None \<Rightarrow> Inl UnboundLocalError
                      | Some lt \<Rightarrow> Inr (loss + criterion_text env ot lt)))) of
        Inl e \<Rightarrow> Inl e
      | Inr loss \<Rightarrow>
          (if exclusion_loss a then
             (case excl of
                None \<Rightarrow> Inl UnboundLocalError
              | Some ex \<Rightarrow> Inr (loss - (exclusion_weight a * (temperature a)\<^sup>2 * ex)))
           else Inr loss))"

text \<open>
  train.py 97-122 (and 188-213) in one piece: targets, forward pass, loss. Returns the
  loss and the class logits.
\<close>

definition masked_loss ::
  "args \<Rightarrow> ('m, 'p, 'r, 'img, 'o, 't) env \<Rightarrow> 'm \<Rightarrow> 'img \<Rightarrow> nat list \<Rightarrow> tensor2 option
     \<Rightarrow> tensor2 option \<Rightarrow> error + (real \<times> 'o)" where
  "masked_loss a env m images labels captions masks =
     (case (case masks of
              None \<Rightarrow> Inr None
            | Some mk \<Rightarrow> (case text_targets a captions mk of Inl e \<Rightarrow> Inl e | Inr lt \<Rightarrow> Inr (Some lt))) of
        Inl e \<Rightarrow> Inl e
      | Inr labels_text \<Rightarrow>
          (case forward_pass a env m images captions masks of
             Inl e \<Rightarrow> Inl e
           | Inr (outputs, outputs_text, excl) \<Rightarrow>
               (case compose_loss a env outputs labels masks outputs_text labels_text excl of
                  Inl e \<Rightarrow> Inl e
                | Inr loss \<Rightarrow> Inr (loss, outputs))))"

section \<open>train_one_epoch\<close>

text \<open>
  One pass of the loop body, train.py 87-146, on the pair of the run state and the local
  list \<^verbatim>\<open>current_losses\<close>. The order of the source is kept: the mask is queried with
  the counter as it stands (96), the loss is computed, the optimizer and then the
  learning-rate scheduler step (125-129), the loss is recorded (131) and only then
  \<^verbatim>\<open>global_step[0] += 1\<close> runs (134). \<^verbatim>\<open>i % args.log_freq\<close> (137) raises when
  \<^verbatim>\<open>log_freq\<close> is 0; what is printed is not modelled.
\<close>

definition train_step ::
  "args \<Rightarrow> ('m, 'p, 'r, 'img, 'o, 't) env \<Rightarrow> 'img batch \<Rightarrow> ('m, 'p, 'r) state \<times> real list
     \<Rightarrow> error + (('m, 'p, 'r) state \<times> real list)" where
  "train_step a env b sl =
     (case sl of (s, current_losses) \<Rightarrow>
      (case unpack_batch a b of
         Inl e \<Rightarrow> Inl e
       | Inr (images, labels, captions) \<Rightarrow>
          (case ret_mask env (rng s) (global_step s) of (masks, r) \<Rightarrow>
            (let s1 = s\<lparr>rng := r, events := events s @ [RetMask (global_step s)]\<rparr> in
             case masked_loss a env (model s1) images labels captions masks of
               Inl e \<Rightarrow> Inl e
             | Inr (loss, outputs) \<Rightarrow>
                (case optimize env (model s1) (optimizer s1) b masks of (m', p') \<Rightarrow>
                  (let s2 = s1\<lparr>model := m', optimizer := p', events := events s1 @ [OptimizerStep]\<rparr>;
                       s3 = (case lr_scheduler env of
                               None \<Rightarrow> s2
                             | Some step \<Rightarrow>
                                 s2\<lparr>optimizer := step (optimizer s2),
                                    events := events s2 @ [LrSchedulerStep]\<rparr>);
                       s4 = s3\<lparr>global_step := global_step s3 + 1,
                               events := events s3 @ [StepIncrement]\<rparr>
                   in if log_freq a = 0 then Inl ZeroDivisionError
                      else Inr (s4, current_losses @ [loss])))))))"

text \<open>
  \<^verbatim>\<open>for i, batch in enumerate(train_loader)\<close> with the debugging break of line 148.
\<close>

fun train_batches ::
  "args \<Rightarrow> ('m, 'p, 'r, 'img, 'o, 't) env \<Rightarrow> nat \<Rightarrow> 'img batch list
     \<Rightarrow> ('m, 'p, 'r) state \<times> real list \<Rightarrow> error + (('m, 'p, 'r) state \<times> real list)" where
  "train_batches a env i [] sl = Inr sl"
| "train_batches a env i (b # bs) sl =
     (case train_step a env b sl of
        Inl e \<Rightarrow> Inl e
      | Inr sl' \<Rightarrow>
          (if debugging a \<and> (i + 1) mod (log_freq a * 3) = 0 then Inr sl'
           else train_batches a env (i + 1) bs sl'))"

text \<open>train.py 74-158. Lines 152-154 decay the rate when no scheduler is attached.\<close>

definition train_one_epoch ::
  "args \<Rightarrow> ('m, 'p, 'r, 'img, 'o, 't) env \<Rightarrow> nat \<Rightarrow> 'img batch list \<Rightarrow> ('m, 'p, 'r) state
     \<Rightarrow> error + ('m, 'p, 'r) state" where
  "train_one_epoch a env epoch train_loader s =
     (case train_batches a env 0 train_loader (s, []) of
        Inl e \<Rightarrow> Inl e
      | Inr (s1, current_losses) \<Rightarrow>
          (case (case lr_scheduler env of
                   Some _ \<Rightarrow> Inr s1
                 | None \<Rightarrow>
                     (if epoch_decay a = 0 then Inl ZeroDivisionError
                      else if (epoch + 1) mod epoch_decay a = 0
                        then Inr (s1\<lparr>optimizer := update_lr env (optimizer s1),
                                     events := events s1 @ [UpdateLr]\<rparr>)
                        else Inr s1)) of
             Inl e \<Rightarrow> Inl e
           | Inr s2 \<Rightarrow>
               (case mean current_losses of
                  Inl e \<Rightarrow> Inl e
                | Inr avg \<Rightarrow> Inr (s2\<lparr>train_loss_avg := train_loss_avg s2 @ [avg]\<rparr>))))"

section \<open>validate\<close>

text \<open>The locals of \<^verbatim>\<open>validate\<close>, train.py 172-175.\<close>

record tally =
  correct_1 :: nat
  correct_5 :: nat
  total :: nat
  current_losses :: "real list"

text \<open>
  Which list receives the mean validation loss: the one the caller passed (line 288)
  or the default-argument object (the call of line 298 passes none).
\<close>

datatype loss_list = Passed | DefaultArg

text \<open>
  The loop body, train.py 179-229. \<^verbatim>\<open>utilities.misc.accuracy(outputs, labels, (1, 5))\<close>
  yields the top-1 and top-5 counts of the batch.
\<close>

definition validate_step ::
  "args \<Rightarrow> ('m, 'p, 'r, 'img, 'o, 't) env \<Rightarrow> 'img batch \<Rightarrow> ('m, 'p, 'r) state \<times> tally
     \<Rightarrow> error + (('m, 'p, 'r) state \<times> tally)" where
  "validate_step a env b st =
     (case st of (s, t) \<Rightarrow>
      (case unpack_batch a b of
         Inl e \<Rightarrow> Inl e
       | Inr (images, labels, captions) \<Rightarrow>
          (case ret_mask env (rng s) (global_step s) of (masks, r) \<Rightarrow>
            (let s1 = s\<lparr>rng := r, events := events s @ [RetMask (global_step s)]\<rparr> in
             case masked_loss a env (model s1) images labels captions masks of
               Inl e \<Rightarrow> Inl e
             | Inr (loss, outputs) \<Rightarrow>
                (let curr_corr_list = accuracy env outputs labels;
                     t' = t\<lparr>current_losses := current_losses t @ [loss],
                             total := total t + length labels,
                             correct_1 := correct_1 t + fst curr_corr_list,
                             correct_5 := correct_5 t + snd curr_corr_list\<rparr>
                 in if log_freq a = 0 then Inl ZeroDivisionError else Inr (s1, t'))))))"

fun validate_batches ::
  "args \<Rightarrow> ('m, 'p, 'r, 'img, 'o, 't) env \<Rightarrow> nat \<Rightarrow> 'img batch list
     \<Rightarrow> ('m, 'p, 'r) state \<times> tally \<Rightarrow> error + (('m, 'p, 'r) state \<times> tally)" where
  "validate_batches a env i [] st = Inr st"
| "validate_batches a env i (b # bs) st =
     (case validate_step a env b st of
        Inl e \<Rightarrow> Inl e
      | Inr st' \<Rightarrow>
          (if debugging a \<and> (i + 1) mod (log_freq a * 3) = 0 then Inr st'
           else validate_batches a env (i + 1) bs st'))"

text \<open>
  train.py 161-253. The result is the top-1 percentage together with the state. With
  plain counts \<^verbatim>\<open>100 * correct_1/total\<close> raises when no example was counted.
\<close>

definition validate ::
  "args \<Rightarrow> ('m, 'p, 'r, 'img, 'o, 't) env \<Rightarrow> 'img batch list \<Rightarrow> loss_list
     \<Rightarrow> ('m, 'p, 'r) state \<Rightarrow> error + (real \<times> ('m, 'p, 'r) state)" where
  "validate a env loader dest s =
     (case validate_batches a env 0 loader
             (s, \<lparr>correct_1 = 0, correct_5 = 0, total = 0, current_losses = []\<rparr>) of
        Inl e \<Rightarrow> Inl e
      | Inr (s1, t) \<Rightarrow>
          (case mean (current_losses t) of
             Inl e \<Rightarrow> Inl e
           | Inr avg \<Rightarrow>
               (let s2 = (case dest of
                            Passed \<Rightarrow> s1\<lparr>val_loss_avg := val_loss_avg s1 @ [avg]\<rparr>
                          | DefaultArg \<Rightarrow> s1\<lparr>validate_default := validate_default s1 @ [avg]\<rparr>)
                in if total t = 0 then Inl ZeroDivisionError
                   else
                     (let curr_top1_acc = 100 * real (correct_1 t) / real (total t);
                          s3 = s2\<lparr>top1_accuracies := top1_accuracies s2 @ [curr_top1_acc]\<rparr>;
                          curr_top5_acc = 100 * real (correct_5 t) / real (total t);
                          s4 = s3\<lparr>top5_accuracies := top5_accuracies s3 @ [curr_top5_acc]\<rparr>
                      in Inr (curr_top1_acc, s4)))))"

section \<open>train_main\<close>

text \<open>
  The epoch loop, train.py 275-295, over the epoch numbers of \<^verbatim>\<open>range(no_epochs)\<close>.
  The peak-memory bookkeeping of lines 281-283 reads the GPU and is left out.
\<close>

fun run_epochs ::
  "args \<Rightarrow> ('m, 'p, 'r, 'img, 'o, 't) env \<Rightarrow> 'img batch list \<Rightarrow> 'img batch list \<Rightarrow> nat list
     \<Rightarrow> ('m, 'p, 'r) state \<Rightarrow> error + ('m, 'p, 'r) state" where
  "run_epochs a env train_loader val_loader [] s = Inr s"
| "run_epochs a env train_loader val_loader (epoch # rest) s =
     (case train_one_epoch a env epoch train_loader s of
        Inl e \<Rightarrow> Inl e
      | Inr s1 \<Rightarrow>
          (case validate a env val_loader Passed s1 of
             Inl e \<Rightarrow> Inl e
           | Inr (curr_acc, s2) \<Rightarrow>
               run_epochs a env train_loader val_loader rest
                 (if curr_acc > top_acc s2
                  then s2\<lparr>checkpoint := Some (model s2),
                          saved_epochs := saved_epochs s2 @ [epoch + 1],
                          top_acc := curr_acc,
                          best_epoch := epoch + 1\<rparr>
                  else s2)))"

text \<open>
  The state of train.py 265-273 around what \<^verbatim>\<open>environment_loader\<close> built: network
  \<open>m0\<close>, optimizer \<open>p0\<close>, random state \<open>r0\<close>, and \<open>d0\<close>, the content of the
  default-argument list of \<^verbatim>\<open>validate\<close> when the run starts.
\<close>

definition initial_state :: "'m \<Rightarrow> 'p \<Rightarrow> 'r \<Rightarrow> real list \<Rightarrow> ('m, 'p, 'r) state" where
  "initial_state m0 p0 r0 d0 =
     \<lparr>global_step = 0, model = m0, optimizer = p0, rng = r0, events = [],
      train_loss_avg = [], val_loss_avg = [], top1_accuracies = [], top5_accuracies = [],
      validate_default = d0, top_acc = 0, best_epoch = 0, checkpoint = None,
      saved_epochs = []\<rparr>"

text \<open>train.py 256-305; the result is the state \<^verbatim>\<open>log_summary_stats\<close> reports.\<close>

definition train_main ::
  "args \<Rightarrow> ('m, 'p, 'r, 'img, 'o, 't) env \<Rightarrow> 'img batch list \<Rightarrow> 'img batch list
     \<Rightarrow> 'img batch list \<Rightarrow> ('m, 'p, 'r) state \<Rightarrow> error + ('m, 'p, 'r) state" where
  "train_main a env train_loader val_loader test_loader s0 =
     (case run_epochs a env train_loader val_loader [0..<no_epochs a] s0 of
        Inl e \<Rightarrow> Inl e
      | Inr s \<Rightarrow>
          (case validate a env test_loader DefaultArg s of
             Inl e \<Rightarrow> Inl e
           | Inr (_, s') \<Rightarrow> Inr s'))"

section \<open>return_prepared_inputs\<close>

text \<open>
  \<^verbatim>\<open>torch.randint(low, high, (1, n))\<close>: \<open>n\<close> draws from \<open>low, ..., high - 1\<close>, the
  \<open>k\<close>-th one decided by the \<open>k\<close>-th raw output \<open>raw k\<close> of the generator; an empty
  range is refused.
\<close>

definition randint :: "nat \<Rightarrow> nat \<Rightarrow> nat \<Rightarrow> (nat \<Rightarrow> nat) \<Rightarrow> error + int list" where
  "randint low high n raw =
     (if high \<le> low then Inl RuntimeError
      else Inr (map (\<lambda>k. int (low + raw k mod (high - low))) [0..<n]))"

text \<open>
  inference.py 123-136, the text prompt (the image is produced by the data set's
  transform). \<open>None\<close> is the return of line 136, which carries the image alone.
  \<open>vocab_size\<close> and \<open>special_tokens\<close> are attributes of the mask scheduler.
\<close>

definition return_prepared_inputs ::
  "args \<Rightarrow> nat \<Rightarrow> int list \<Rightarrow> (nat \<Rightarrow> nat) \<Rightarrow> error + int list option" where
  "return_prepared_inputs a vocab_size special_tokens raw =
     (if inference_mode a = ''multimodal'' then
        (case (if masking_behavior a = ''constant''
               then Inr (replicate (max_text_seq_len a) 1)
               else randint 0 (vocab_size - 1) (max_text_seq_len a) raw) of
           Inl e \<Rightarrow> Inl e
         | Inr text_prompt \<Rightarrow>
             (if length special_tokens \<le> 1 \<or> text_prompt = [] then Inl IndexError
              else
                (let text_prompt1 = text_prompt[0 := special_tokens ! 1] in
                 if length special_tokens \<le> 2 then Inl IndexError
                 else Inr (Some (text_prompt1[length text_prompt1 - 1 := special_tokens ! 2])))))
      else Inr None)"

section \<open>Top-k accuracy\<close>

text \<open>
  Modelled from the spec: \<^verbatim>\<open>utilities.misc.accuracy\<close> is not among the sources. The
  specification (4.5) says: a prediction counts as correct for top-k if the true label
  appears among the k highest model scores. \<open>topk k\<close> lists the classes of the \<open>k\<close>
  highest scores of one example (earlier class first among equal scores), and
  \<open>topk_accuracy\<close> counts the examples of a batch that are correct for \<open>k = 1\<close> and
  for \<open>k = 5\<close>.
\<close>

definition topk :: "nat \<Rightarrow> real list \<Rightarrow> nat list" where
  "topk k scores = take k (map snd (sort_key (\<lambda>p. - fst p) (zip scores [0..<length scores])))"

definition topk_accuracy :: "real list list \<Rightarrow> nat list \<Rightarrow> nat \<times> nat" where
  "topk_accuracy outputs labels =
     (length (filter (\<lambda>p. snd p \<in> set (topk 1 (fst p))) (zip outputs labels)),
      length (filter (\<lambda>p. snd p \<in> set (topk 5 (fst p))) (zip outputs labels)))"

section \<open>Vocabulary of the properties\<close>

text \<open>
  The calls of one training batch, in the order of train.py 96-134, when the counter
  holds \<open>g\<close> on entry.
\<close>

definition batch_events :: "('m, 'p, 'r, 'img, 'o, 't) env \<Rightarrow> nat \<Rightarrow> event list" where
  "batch_events env g =
     [RetMask g, OptimizerStep]
     @ (case lr_scheduler env of None \<Rightarrow> [] | Some _ \<Rightarrow> [LrSchedulerStep])
     @ [StepIncrement]"

text \<open>The decay of train.py 152-154 at the end of epoch number \<open>epoch\<close>.\<close>

definition decay_events :: "args \<Rightarrow> ('m, 'p, 'r, 'img, 'o, 't) env \<Rightarrow> nat \<Rightarrow> event list" where
  "decay_events a env epoch =
     (case lr_scheduler env of
        Some _ \<Rightarrow> []
      | None \<Rightarrow> (if (epoch + 1) mod epoch_decay a = 0 then [UpdateLr] else []))"

text \<open>How many batches of a loader of \<open>n\<close> batches an epoch goes through.\<close>

definition batches_run :: "args \<Rightarrow> nat \<Rightarrow> nat" where
  "batches_run a n = (if debugging a then min n (3 * log_freq a) else n)"

primrec batch_size :: "'img batch \<Rightarrow> nat" where
  "batch_size (Batch2 images labels) = length labels"
| "batch_size (Batch3 images labels captions) = length labels"

text \<open>
  What top-k counting guarantees of the accuracy collaborator: the examples correct for
  \<open>k = 1\<close> are among those correct for \<open>k = 5\<close>.
\<close>

definition fair_counts :: "('m, 'p, 'r, 'img, 'o, 't) env \<Rightarrow> bool" where
  "fair_counts env =
     (\<forall>outputs labels. fst (accuracy env outputs labels) \<le> snd (accuracy env outputs labels))"

text \<open>
  On the list of the epochs' top-1 percentages: epoch \<open>i\<close> (counted from 0) is above
  every earlier epoch (\<open>exceeds_prior\<close>, the wording of the specification), and it is
  above every earlier epoch and above the initial \<^verbatim>\<open>top_acc = 0\<close> (\<open>new_best\<close>).
\<close>

definition exceeds_prior :: "real list \<Rightarrow> nat \<Rightarrow> bool" where
  "exceeds_prior accs i = (\<forall>j<i. accs ! j < accs ! i)"

definition new_best :: "real list \<Rightarrow> nat \<Rightarrow> bool" where
  "new_best accs i = (0 < accs ! i \<and> exceeds_prior accs i)"

text \<open>The invariant of the epoch loop after \<open>k\<close> epochs.\<close>

definition selector_inv :: "nat \<Rightarrow> ('m, 'p, 'r) state \<Rightarrow> bool" where
  "selector_inv k s =
     (length (top1_accuracies s) = k
      \<and> top_acc s = Max (insert 0 (set (top1_accuracies s)))
      \<and> saved_epochs s = map Suc (filter (new_best (top1_accuracies s)) [0..<k])
      \<and> best_epoch s = (if saved_epochs s = [] then 0 else last (saved_epochs s))
      \<and> (saved_epochs s \<noteq> [] \<longrightarrow> top_acc s = top1_accuracies s ! (best_epoch s - 1)))"

section \<open>Concrete runs\<close>

text \<open>
  Small configurations on which the functions above are evaluated. \<open>counting_env\<close> is
  a vision-only setting whose network already answers with the pair of top-1 and top-5
  counts, read from a table indexed by the number of optimizer updates made so far; the
  loss is 20 minus the top-1 count. In \<open>toy_counts\<close> the counts after one, two and three
  updates are 14, 13 and 15 correct out of 20.
\<close>

definition toy_args :: args where
  "toy_args = \<lparr>multimodal = False, mask_schedule = False, exclusion_loss = False,
     debugging = False, exclusion_weight = 1 / 2, temperature = 2, max_text_seq_len = 3,
     log_freq = 1, epoch_decay = 1, no_epochs = 3, inference_mode = ''multimodal'',
     masking_behavior = ''constant''\<rparr>"

definition counting_env :: "(nat \<Rightarrow> nat \<times> nat) \<Rightarrow> (nat, nat, nat, unit, nat \<times> nat, unit) env" where
  "counting_env counts = \<lparr>ret_mask = (\<lambda>r g. (None, r)),
     forward = (\<lambda>m images text. Out (counts m)),
     criterion = (\<lambda>outputs labels. 20 - real (fst outputs)),
     criterion_text = (\<lambda>t l. 1 / 4),
     accuracy = (\<lambda>outputs labels. outputs),
     optimize = (\<lambda>m p b masks. (m + 1, p)),
     lr_scheduler = Some Suc,
     update_lr = (\<lambda>p. p)\<rparr>"

definition toy_counts :: "nat \<Rightarrow> nat \<times> nat" where
  "toy_counts m = (if m = 1 then (14, 19) else if m = 2 then (13, 19) else (15, 20))"

definition zero_counts :: "nat \<Rightarrow> nat \<times> nat" where
  "zero_counts m = (0, 5)"

definition scenario_counts :: "nat \<Rightarrow> nat \<times> nat" where
  "scenario_counts m = (800, 950)"

definition toy_train_loader :: "unit batch list" where
  "toy_train_loader = [Batch2 () [0]]"

definition toy_val_loader :: "unit batch list" where
  "toy_val_loader = [Batch2 () (replicate 20 0)]"

definition scenario_loader :: "unit batch list" where
  "scenario_loader = [Batch2 () (replicate 1000 0)]"

definition four_batches :: "unit batch list" where
  "four_batches = [Batch2 () [0], Batch2 () [1], Batch2 () [2], Batch2 () [3]]"

text \<open>The state after the first training epoch of the toy run, and the state at its end.\<close>

definition toy_epoch1 :: "(nat, nat, nat) state" where
  "toy_epoch1 =
     \<lparr>global_step = 1, model = 1, optimizer = 1, rng = 0,
      events = [RetMask 0, OptimizerStep, LrSchedulerStep, StepIncrement],
      train_loss_avg = [5], val_loss_avg = [], top1_accuracies = [],
      top5_accuracies = [], validate_default = [], top_acc = 0, best_epoch = 0,
      checkpoint = None, saved_epochs = []\<rparr>"

definition toy_final :: "(nat, nat, nat) state" where
  "toy_final =
     \<lparr>global_step = 3, model = 3, optimizer = 3, rng = 0,
      events = [RetMask 0, OptimizerStep, LrSchedulerStep, StepIncrement, RetMask 1,
         RetMask 1, OptimizerStep, LrSchedulerStep, StepIncrement, RetMask 2,
         RetMask 2, OptimizerStep, LrSchedulerStep, StepIncrement, RetMask 3, RetMask 3],
      train_loss_avg = [5, 6, 7], val_loss_avg = [6, 7, 5],
      top1_accuracies = [70, 65, 75, 75], top5_accuracies = [95, 95, 100, 100],
      validate_default = [5], top_acc = 75, best_epoch = 3, checkpoint = Some 3,
      saved_epochs = [1, 3]\<rparr>"

text \<open>The end of a one-epoch run whose network gets no validation example right.\<close>

definition zero_final :: "(nat, nat, nat) state" where
  "zero_final =
     \<lparr>global_step = 1, model = 1, optimizer = 1, rng = 0,
      events = [RetMask 0, OptimizerStep, LrSchedulerStep, StepIncrement, RetMask 1, RetMask 1],
      train_loss_avg = [20], val_loss_avg = [20],
      top1_accuracies = [0, 0], top5_accuracies = [25, 25],
      validate_default = [20], top_acc = 0, best_epoch = 0, checkpoint = None,
      saved_epochs = []\<rparr>"

text \<open>
  A setting whose accuracy collaborator is \<open>topk_accuracy\<close>: one example of class 0
  whose score is the fifth highest of six.
\<close>

definition topk_env :: "(nat, nat, nat, unit, real list list, unit) env" where
  "topk_env = \<lparr>ret_mask = (\<lambda>r g. (None, r)),
     forward = (\<lambda>m images text. Out [[1 / 10, 9 / 10, 3 / 10, 2 / 10, 4 / 10, 0]]),
     criterion = (\<lambda>outputs labels. 1),
     criterion_text = (\<lambda>t l. 0),
     accuracy = topk_accuracy,
     optimize = (\<lambda>m p b masks. (m + 1, p)),
     lr_scheduler = Some Suc,
     update_lr = (\<lambda>p. p)\<rparr>"

definition topk_validated :: "(nat, nat, nat) state" where
  "topk_validated =
     \<lparr>global_step = 0, model = 0, optimizer = 0, rng = 0, events = [RetMask 0],
      train_loss_avg = [], val_loss_avg = [1], top1_accuracies = [0],
      top5_accuracies = [100], validate_default = [], top_acc = 0, best_epoch = 0,
      checkpoint = None, saved_epochs = []\<rparr>"

text \<open>
  A multimodal setting with all three objectives on: the mask scheduler always answers
  with the same two-row mask, the network with fixed class counts, a text output and the
  exclusion term 3, and the text cross-entropy is the number of supervised positions
  (targets other than -100) it is handed.
\<close>

definition text_args :: args where
  "text_args = \<lparr>multimodal = True, mask_schedule = True, exclusion_loss = True,
     debugging = False, exclusion_weight = 1 / 2, temperature = 2, max_text_seq_len = 3,
     log_freq = 1, epoch_decay = 1, no_epochs = 1, inference_mode = ''multimodal'',
     masking_behavior = ''constant''\<rparr>"

definition supervised :: "tensor2 \<Rightarrow> nat" where
  "supervised targets = length (filter (\<lambda>x. x \<noteq> - 100) (concat targets))"

definition text_env :: "(nat, nat, nat, unit, nat \<times> nat, unit) env" where
  "text_env = \<lparr>ret_mask = (\<lambda>r g. (Some [[1, 0, 0, 1, 0], [1, 1, 0, 0, 0]], r)),
     forward = (\<lambda>m images text. OutTextExcl (14, 19) () 3),
     criterion = (\<lambda>outputs labels. 20 - real (fst outputs)),
     criterion_text = (\<lambda>t targets. real (supervised targets)),
     accuracy = (\<lambda>outputs labels. outputs),
     optimize = (\<lambda>m p b masks. (m + 1, p)),
     lr_scheduler = Some Suc,
     update_lr = (\<lambda>p. p)\<rparr>"

definition text_batch :: "unit batch" where
  "text_batch = Batch3 () [0, 1] [[101, 7, 8], [9, 102, 0]]"

text \<open>Raw generator outputs for the random prompt: 25, 32, 39, ...\<close>

definition toy_raw :: "nat \<Rightarrow> nat" where
  "toy_raw k = 7 * k + 25"

section \<open>Tensor helpers: facts\<close>

lemma sequence_map_Inr:
  "(\<And>x. x \<in> set xs \<Longrightarrow> f x = Inr (g x)) \<Longrightarrow> sequence (map f xs) = Inr (map g xs)"
  by (induction xs) auto

lemma where_row_same:
  "length c = length x \<Longrightarrow>
     where_row v c x = Inr (map2 (\<lambda>b y. if b then v else y) c x)"
  by (simp add: where_row_def broadcast_dim_def expand_def)

lemma where2_same:
  assumes "length c = length x"
    and "\<And>b. b < length x \<Longrightarrow> length (c ! b) = length (x ! b)"
  shows "where2 c v x = Inr (map2 (\<lambda>cr xr. map2 (\<lambda>b y. if b then v else y) cr xr) c x)"
proof -
  have "\<And>p. p \<in> set (zip c x) \<Longrightarrow>
          (case p of (cr, xr) \<Rightarrow> where_row v cr xr) =
          Inr (case p of (cr, xr) \<Rightarrow> map2 (\<lambda>b y. if b then v else y) cr xr)"
  proof -
    fix p assume "p \<in> set (zip c x)"
    then obtain i where "i < length x" "p = (c ! i, x ! i)"
      using assms(1) by (auto simp: set_zip)
    then show "(case p of (cr, xr) \<Rightarrow> where_row v cr xr) =
          Inr (case p of (cr, xr) \<Rightarrow> map2 (\<lambda>b y. if b then v else y) cr xr)"
      using assms(2) by (simp add: where_row_same)
  qed
  then have "sequence (map (\<lambda>(cr, xr). where_row v cr xr) (zip c x)) =
      Inr (map (\<lambda>(cr, xr). map2 (\<lambda>b y. if b then v else y) cr xr) (zip c x))"
    by (rule sequence_map_Inr)
  then show ?thesis
    using assms(1) by (simp add: where2_def broadcast_dim_def expand_def)
qed

section \<open>One epoch of training\<close>

lemma train_step_effect:
  assumes "train_step a env b (s, ls) = Inr (s', ls')"
  shows "global_step s' = global_step s + 1
       \<and> events s' = events s @ batch_events env (global_step s)
       \<and> (\<exists>loss. ls' = ls @ [loss])
       \<and> 0 < log_freq a
       \<and> train_loss_avg s' = train_loss_avg s \<and> val_loss_avg s' = val_loss_avg s
       \<and> top1_accuracies s' = top1_accuracies s \<and> top5_accuracies s' = top5_accuracies s
       \<and> validate_default s' = validate_default s \<and> top_acc s' = top_acc s
       \<and> best_epoch s' = best_epoch s \<and> checkpoint s' = checkpoint s
       \<and> saved_epochs s' = saved_epochs s"
  using assms
  by (auto simp: train_step_def batch_events_def Let_def
      split: sum.splits prod.splits option.splits if_splits)

lemma args_debugging_sel:
  "multimodal (a\<lparr>debugging := d\<rparr>) = multimodal a"
  "mask_schedule (a\<lparr>debugging := d\<rparr>) = mask_schedule a"
  "exclusion_loss (a\<lparr>debugging := d\<rparr>) = exclusion_loss a"
  "exclusion_weight (a\<lparr>debugging := d\<rparr>) = exclusion_weight a"
  "temperature (a\<lparr>debugging := d\<rparr>) = temperature a"
  "max_text_seq_len (a\<lparr>debugging := d\<rparr>) = max_text_seq_len a"
  "log_freq (a\<lparr>debugging := d\<rparr>) = log_freq a"
  "epoch_decay (a\<lparr>debugging := d\<rparr>) = epoch_decay a"
  by simp_all

lemma masked_loss_debugging:
  "masked_loss (a\<lparr>debugging := d\<rparr>) = masked_loss a"
  unfolding masked_loss_def text_targets_def forward_pass_def compose_loss_def
    args_debugging_sel ..

lemma train_step_debugging:
  "train_step (a\<lparr>debugging := d\<rparr>) = train_step a"
  unfolding train_step_def unpack_batch_def masked_loss_debugging args_debugging_sel ..

lemma train_batches_effect:
  "train_batches a env i bs (s, ls) = Inr (s', ls') \<Longrightarrow>
     \<exists>n \<le> length bs.
       (\<not> debugging a \<longrightarrow> n = length bs)
     \<and> global_step s' = global_step s + n
     \<and> events s' = events s @ concat (map (\<lambda>k. batch_events env (global_step s + k)) [0..<n])
     \<and> length ls' = length ls + n
     \<and> train_loss_avg s' = train_loss_avg s \<and> val_loss_avg s' = val_loss_avg s
     \<and> top1_accuracies s' = top1_accuracies s \<and> top5_accuracies s' = top5_accuracies s
     \<and> validate_default s' = validate_default s \<and> top_acc s' = top_acc s
     \<and> best_epoch s' = best_epoch s \<and> checkpoint s' = checkpoint s
     \<and> saved_epochs s' = saved_epochs s"
proof (induction bs arbitrary: i s ls)
  case Nil
  then show ?case by simp
next
  case (Cons b bs)
  from Cons.prems obtain s1 ls1 where
    step: "train_step a env b (s, ls) = Inr (s1, ls1)"
    by (auto split: sum.splits)
  note eff = train_step_effect [OF step]
  have shift: "\<And>n. concat (map (\<lambda>k. batch_events env (global_step s + k)) [0..<Suc n]) =
      batch_events env (global_step s)
      @ concat (map (\<lambda>k. batch_events env (global_step s1 + k)) [0..<n])"
  proof -
    fix n
    have "[0..<Suc n] = 0 # map Suc [0..<n]"
      by (simp add: upt_conv_Cons map_Suc_upt del: upt_Suc)
    then show "concat (map (\<lambda>k. batch_events env (global_step s + k)) [0..<Suc n]) =
      batch_events env (global_step s)
      @ concat (map (\<lambda>k. batch_events env (global_step s1 + k)) [0..<n])"
      using eff by (simp add: comp_def del: upt_Suc)
  qed
  show ?case
  proof (cases "debugging a \<and> (i + 1) mod (log_freq a * 3) = 0")
    case True
    with Cons.prems step have "s' = s1" "ls' = ls1" by auto
    with eff True show ?thesis
      by (intro exI [of _ 1]) (auto simp: batch_events_def)
  next
    case False
    with Cons.prems step have rest: "train_batches a env (i + 1) bs (s1, ls1) = Inr (s', ls')"
      by auto
    from Cons.IH [OF rest] obtain n where n: "n \<le> length bs"
      "\<not> debugging a \<longrightarrow> n = length bs"
      "global_step s' = global_step s1 + n"
      "events s' = events s1 @ concat (map (\<lambda>k. batch_events env (global_step s1 + k)) [0..<n])"
      "length ls' = length ls1 + n"
      "train_loss_avg s' = train_loss_avg s1" "val_loss_avg s' = val_loss_avg s1"
      "top1_accuracies s' = top1_accuracies s1" "top5_accuracies s' = top5_accuracies s1"
      "validate_default s' = validate_default s1" "top_acc s' = top_acc s1"
      "best_epoch s' = best_epoch s1" "checkpoint s' = checkpoint s1"
      "saved_epochs s' = saved_epochs s1"
      by blast
    show ?thesis
      using n eff shift [of n]
      by (intro exI [of _ "Suc n"]) (auto simp del: upt_Suc)
  qed
qed

lemma train_batches_debug_take:
  assumes "debugging a" and "0 < log_freq a"
  shows "i < 3 * log_freq a \<Longrightarrow>
     train_batches a env i bs sl =
       train_batches (a\<lparr>debugging := False\<rparr>) env i (take (3 * log_freq a - i) bs) sl"
proof (induction bs arbitrary: i sl)
  case Nil
  then show ?case by simp
next
  case (Cons b bs)
  let ?d = "3 * log_freq a"
  show ?case
  proof (cases "(i + 1) mod (log_freq a * 3) = 0")
    case True
    with Cons.prems have "i + 1 = ?d"
      by (metis Suc_eq_plus1 Suc_leI le_neq_implies_less mod_less mult.commute
          add_is_0 zero_neq_one)
    then have "?d - i = 1" by simp
    with True assms show ?thesis
      by (simp add: train_step_debugging split: sum.splits)
  next
    case False
    with Cons.prems have lt: "i + 1 < ?d"
      by (metis Suc_eq_plus1 Suc_leI le_neq_implies_less mod_self mult.commute)
    then have tk: "take (?d - i) (b # bs) = b # take (?d - (i + 1)) bs"
      by (simp add: take_Cons')
    show ?thesis
      using False assms Cons.IH [OF lt] unfolding tk
      by (simp add: train_step_debugging split: sum.splits)
  qed
qed

lemma train_batches_run:
  assumes "train_batches a env 0 bs (s, ls) = Inr (s', ls')"
  shows "(bs \<noteq> [] \<longrightarrow> 0 < log_freq a)
     \<and> global_step s' = global_step s + batches_run a (length bs)
     \<and> events s' = events s
          @ concat (map (\<lambda>k. batch_events env (global_step s + k)) [0..<batches_run a (length bs)])
     \<and> length ls' = length ls + batches_run a (length bs)
     \<and> train_loss_avg s' = train_loss_avg s \<and> val_loss_avg s' = val_loss_avg s
     \<and> top1_accuracies s' = top1_accuracies s \<and> top5_accuracies s' = top5_accuracies s
     \<and> validate_default s' = validate_default s \<and> top_acc s' = top_acc s
     \<and> best_epoch s' = best_epoch s \<and> checkpoint s' = checkpoint s
     \<and> saved_epochs s' = saved_epochs s"
proof -
  have lf: "bs \<noteq> [] \<longrightarrow> 0 < log_freq a"
  proof
    assume "bs \<noteq> []"
    then obtain b bs' where "bs = b # bs'" by (cases bs) auto
    with assms obtain sl1 where "train_step a env b (s, ls) = Inr sl1"
      by (auto split: sum.splits)
    then show "0 < log_freq a"
      using train_step_effect [of a env b s ls "fst sl1" "snd sl1"] by simp
  qed
  show ?thesis
  proof (cases "debugging a \<and> bs \<noteq> []")
    case True
    with lf have pos: "0 < 3 * log_freq a" by simp
    let ?a = "a\<lparr>debugging := False\<rparr>"
    have "train_batches ?a env 0 (take (3 * log_freq a) bs) (s, ls) = Inr (s', ls')"
      using train_batches_debug_take [of a 0 env bs "(s, ls)"] True lf pos assms by simp
    from train_batches_effect [OF this] True lf show ?thesis
      by (auto simp: batches_run_def min_def)
  next
    case False
    from train_batches_effect [OF assms] False lf show ?thesis
      by (auto simp: batches_run_def)
  qed
qed

lemma train_one_epoch_effect:
  assumes "train_one_epoch a env epoch bs s = Inr s'"
  shows "bs \<noteq> [] \<and> 0 < log_freq a
     \<and> global_step s' = global_step s + batches_run a (length bs)
     \<and> events s' = events s
          @ concat (map (\<lambda>k. batch_events env (global_step s + k)) [0..<batches_run a (length bs)])
          @ decay_events a env epoch
     \<and> (\<exists>avg. train_loss_avg s' = train_loss_avg s @ [avg])
     \<and> val_loss_avg s' = val_loss_avg s
     \<and> top1_accuracies s' = top1_accuracies s \<and> top5_accuracies s' = top5_accuracies s
     \<and> validate_default s' = validate_default s \<and> top_acc s' = top_acc s
     \<and> best_epoch s' = best_epoch s \<and> checkpoint s' = checkpoint s
     \<and> saved_epochs s' = saved_epochs s"
proof -
  from assms obtain s1 ls where
    tb: "train_batches a env 0 bs (s, []) = Inr (s1, ls)"
    by (auto simp: train_one_epoch_def split: sum.splits)
  note run = train_batches_run [OF tb]
  from assms tb have ne: "ls \<noteq> []"
    by (auto simp: train_one_epoch_def mean_def split: sum.splits option.splits if_splits)
  have "length ls = batches_run a (length bs)" using run by simp
  with ne have "batches_run a (length bs) \<noteq> 0"
    by (metis length_0_conv)
  then have bne: "bs \<noteq> []" by (auto simp: batches_run_def split: if_splits)
  from assms tb ne show ?thesis
    using run bne
    by (auto simp: train_one_epoch_def mean_def decay_events_def
        split: sum.splits option.splits if_splits)
qed

section \<open>One validation pass\<close>

lemma unpack_batch_size:
  "unpack_batch a b = Inr (images, labels, captions) \<Longrightarrow> length labels = batch_size b"
  by (cases b) (auto simp: unpack_batch_def split: if_splits)

lemma validate_step_effect:
  assumes "validate_step a env b (s, t) = Inr (s', t')"
  shows "global_step s' = global_step s \<and> model s' = model s \<and> optimizer s' = optimizer s
       \<and> events s' = events s @ [RetMask (global_step s)]
       \<and> 0 < log_freq a
       \<and> total t' = total t + batch_size b
       \<and> length (current_losses t') = length (current_losses t) + 1
       \<and> (fair_counts env \<longrightarrow> correct_1 t \<le> correct_5 t \<longrightarrow> correct_1 t' \<le> correct_5 t')
       \<and> train_loss_avg s' = train_loss_avg s \<and> val_loss_avg s' = val_loss_avg s
       \<and> top1_accuracies s' = top1_accuracies s \<and> top5_accuracies s' = top5_accuracies s
       \<and> validate_default s' = validate_default s \<and> top_acc s' = top_acc s
       \<and> best_epoch s' = best_epoch s \<and> checkpoint s' = checkpoint s
       \<and> saved_epochs s' = saved_epochs s"
proof -
  from assms obtain images labels captions where
    up: "unpack_batch a b = Inr (images, labels, captions)"
    by (auto simp: validate_step_def split: sum.splits)
  have sz: "length labels = batch_size b" by (rule unpack_batch_size [OF up])
  have fc: "\<And>outputs. fair_counts env \<Longrightarrow>
      fst (accuracy env outputs labels) \<le> snd (accuracy env outputs labels)"
    by (simp add: fair_counts_def)
  from assms up sz show ?thesis
    by (auto simp: validate_step_def Let_def add_mono fc
        split: sum.splits prod.splits if_splits)
qed

lemma validate_step_debugging:
  "validate_step (a\<lparr>debugging := d\<rparr>) = validate_step a"
  unfolding validate_step_def unpack_batch_def masked_loss_debugging args_debugging_sel ..

lemma validate_batches_effect:
  "validate_batches a env i bs (s, t) = Inr (s', t') \<Longrightarrow>
     \<exists>n \<le> length bs.
       (\<not> debugging a \<longrightarrow> n = length bs)
     \<and> global_step s' = global_step s \<and> model s' = model s \<and> optimizer s' = optimizer s
     \<and> events s' = events s @ replicate n (RetMask (global_step s))
     \<and> total t' = total t + sum_list (map batch_size (take n bs))
     \<and> length (current_losses t') = length (current_losses t) + n
     \<and> (fair_counts env \<longrightarrow> correct_1 t \<le> correct_5 t \<longrightarrow> correct_1 t' \<le> correct_5 t')
     \<and> train_loss_avg s' = train_loss_avg s \<and> val_loss_avg s' = val_loss_avg s
     \<and> top1_accuracies s' = top1_accuracies s \<and> top5_accuracies s' = top5_accuracies s
     \<and> validate_default s' = validate_default s \<and> top_acc s' = top_acc s
     \<and> best_epoch s' = best_epoch s \<and> checkpoint s' = checkpoint s
     \<and> saved_epochs s' = saved_epochs s"
proof (induction bs arbitrary: i s t)
  case Nil
  then show ?case by simp
next
  case (Cons b bs)
  from Cons.prems obtain s1 t1 where
    step: "validate_step a env b (s, t) = Inr (s1, t1)"
    by (auto split: sum.splits)
  note eff = validate_step_effect [OF step]
  show ?case
  proof (cases "debugging a \<and> (i + 1) mod (log_freq a * 3) = 0")
    case True
    with Cons.prems step have "s' = s1" "t' = t1" by auto
    with eff True show ?thesis
      by (intro exI [of _ 1]) auto
  next
    case False
    with Cons.prems step have rest: "validate_batches a env (i + 1) bs (s1, t1) = Inr (s', t')"
      by auto
    from Cons.IH [OF rest] obtain n where n: "n \<le> length bs"
      "\<not> debugging a \<longrightarrow> n = length bs"
      "global_step s' = global_step s1" "model s' = model s1" "optimizer s' = optimizer s1"
      "events s' = events s1 @ replicate n (RetMask (global_step s1))"
      "total t' = total t1 + sum_list (map batch_size (take n bs))"
      "length (current_losses t') = length (current_losses t1) + n"
      "fair_counts env \<longrightarrow> correct_1 t1 \<le> correct_5 t1 \<longrightarrow> correct_1 t' \<le> correct_5 t'"
      "train_loss_avg s' = train_loss_avg s1" "val_loss_avg s' = val_loss_avg s1"
      "top1_accuracies s' = top1_accuracies s1" "top5_accuracies s' = top5_accuracies s1"
      "validate_default s' = validate_default s1" "top_acc s' = top_acc s1"
      "best_epoch s' = best_epoch s1" "checkpoint s' = checkpoint s1"
      "saved_epochs s' = saved_epochs s1"
      by blast
    show ?thesis
      using n eff
      by (intro exI [of _ "Suc n"]) (auto simp: replicate_append_same)
  qed
qed

lemma validate_batches_debug_take:
  assumes "debugging a" and "0 < log_freq a"
  shows "i < 3 * log_freq a \<Longrightarrow>
     validate_batches a env i bs st =
       validate_batches (a\<lparr>debugging := False\<rparr>) env i (take (3 * log_freq a - i) bs) st"
proof (induction bs arbitrary: i st)
  case Nil
  then show ?case by simp
next
  case (Cons b bs)
  let ?d = "3 * log_freq a"
  show ?case
  proof (cases "(i + 1) mod (log_freq a * 3) = 0")
    case True
    with Cons.prems have "i + 1 = ?d"
      by (metis Suc_eq_plus1 Suc_leI le_neq_implies_less mod_less mult.commute
          add_is_0 zero_neq_one)
    then have "?d - i = 1" by simp
    with True assms show ?thesis
      by (simp add: validate_step_debugging split: sum.splits)
  next
    case False
    with Cons.prems have lt: "i + 1 < ?d"
      by (metis Suc_eq_plus1 Suc_leI le_neq_implies_less mod_self mult.commute)
    then have tk: "take (?d - i) (b # bs) = b # take (?d - (i + 1)) bs"
      by (simp add: take_Cons')
    show ?thesis
      using False assms Cons.IH [OF lt] unfolding tk
      by (simp add: validate_step_debugging split: sum.splits)
  qed
qed

lemma validate_batches_run:
  assumes "validate_batches a env 0 bs (s, t) = Inr (s', t')"
  shows "(bs \<noteq> [] \<longrightarrow> 0 < log_freq a)
     \<and> global_step s' = global_step s \<and> model s' = model s \<and> optimizer s' = optimizer s
     \<and> events s' = events s @ replicate (batches_run a (length bs)) (RetMask (global_step s))
     \<and> total t' = total t + sum_list (map batch_size (take (batches_run a (length bs)) bs))
     \<and> length (current_losses t') = length (current_losses t) + batches_run a (length bs)
     \<and> (fair_counts env \<longrightarrow> correct_1 t \<le> correct_5 t \<longrightarrow> correct_1 t' \<le> correct_5 t')
     \<and> train_loss_avg s' = train_loss_avg s \<and> val_loss_avg s' = val_loss_avg s
     \<and> top1_accuracies s' = top1_accuracies s \<and> top5_accuracies s' = top5_accuracies s
     \<and> validate_default s' = validate_default s \<and> top_acc s' = top_acc s
     \<and> best_epoch s' = best_epoch s \<and> checkpoint s' = checkpoint s
     \<and> saved_epochs s' = saved_epochs s"
proof -
  have lf: "bs \<noteq> [] \<longrightarrow> 0 < log_freq a"
  proof
    assume "bs \<noteq> []"
    then obtain b bs' where "bs = b # bs'" by (cases bs) auto
    with assms obtain st1 where "validate_step a env b (s, t) = Inr st1"
      by (auto split: sum.splits)
    then show "0 < log_freq a"
      using validate_step_effect [of a env b s t "fst st1" "snd st1"] by simp
  qed
  show ?thesis
  proof (cases "debugging a \<and> bs \<noteq> []")
    case True
    with lf have pos: "0 < 3 * log_freq a" by simp
    let ?a = "a\<lparr>debugging := False\<rparr>"
    have "validate_batches ?a env 0 (take (3 * log_freq a) bs) (s, t) = Inr (s', t')"
      using validate_batches_debug_take [of a 0 env bs "(s, t)"] True lf pos assms by simp
    from validate_batches_effect [OF this] True lf show ?thesis
      by (auto simp: batches_run_def min_def)
  next
    case False
    from validate_batches_effect [OF assms] False lf show ?thesis
      by (auto simp: batches_run_def)
  qed
qed

lemma validate_effect:
  assumes "validate a env loader dest s = Inr (acc, s')"
  shows "\<exists>s1 t avg.
       validate_batches a env 0 loader
         (s, \<lparr>correct_1 = 0, correct_5 = 0, total = 0, current_losses = []\<rparr>) = Inr (s1, t)
     \<and> loader \<noteq> [] \<and> 0 < log_freq a \<and> 0 < total t
     \<and> acc = 100 * real (correct_1 t) / real (total t)
     \<and> top1_accuracies s' = top1_accuracies s @ [acc]
     \<and> top5_accuracies s' = top5_accuracies s @ [100 * real (correct_5 t) / real (total t)]
     \<and> val_loss_avg s' = val_loss_avg s @ (case dest of Passed \<Rightarrow> [avg] | DefaultArg \<Rightarrow> [])
     \<and> validate_default s' = validate_default s @ (case dest of Passed \<Rightarrow> [] | DefaultArg \<Rightarrow> [avg])
     \<and> global_step s' = global_step s \<and> model s' = model s \<and> optimizer s' = optimizer s
     \<and> events s' = events s @ replicate (batches_run a (length loader)) (RetMask (global_step s))
     \<and> train_loss_avg s' = train_loss_avg s \<and> top_acc s' = top_acc s
     \<and> best_epoch s' = best_epoch s \<and> checkpoint s' = checkpoint s
     \<and> saved_epochs s' = saved_epochs s"
proof -
  let ?t0 = "\<lparr>correct_1 = 0, correct_5 = 0, total = 0, current_losses = []\<rparr>"
  from assms obtain s1 t where
    vb: "validate_batches a env 0 loader (s, ?t0) = Inr (s1, t)"
    by (auto simp: validate_def split: sum.splits)
  note run = validate_batches_run [OF vb]
  from assms vb have ne: "current_losses t \<noteq> []" and tot: "total t \<noteq> 0"
    by (auto simp: validate_def mean_def Let_def split: sum.splits if_splits)
  have "length (current_losses t) = batches_run a (length loader)" using run by simp
  with ne have "batches_run a (length loader) \<noteq> 0"
    by (metis length_0_conv)
  then have bne: "loader \<noteq> []" by (auto simp: batches_run_def split: if_splits)
  let ?avg = "sum_list (current_losses t) / real (length (current_losses t))"
  let ?a1 = "100 * real (correct_1 t) / real (total t)"
  let ?a5 = "100 * real (correct_5 t) / real (total t)"
  let ?s2 = "case dest of
               Passed \<Rightarrow> s1\<lparr>val_loss_avg := val_loss_avg s1 @ [?avg]\<rparr>
             | DefaultArg \<Rightarrow> s1\<lparr>validate_default := validate_default s1 @ [?avg]\<rparr>"
  let ?s4 = "?s2\<lparr>top1_accuracies := top1_accuracies ?s2 @ [?a1],
                 top5_accuracies := top5_accuracies ?s2 @ [?a5]\<rparr>"
  have eq: "validate a env loader dest s = Inr (?a1, ?s4)"
    using vb ne tot by (simp add: validate_def mean_def Let_def)
  note both = trans [OF eq [symmetric] assms, THEN sum.inject(2) [THEN iffD1],
      THEN prod.inject [THEN iffD1]]
  from both have acc: "acc = ?a1" by (rule conjunct1 [THEN sym])
  from both have s': "s' = ?s4" by (rule conjunct2 [THEN sym])
  have pos: "0 < total t" using tot by simp
  have flds: "top1_accuracies s' = top1_accuracies s @ [acc]"
    "top5_accuracies s' = top5_accuracies s @ [?a5]"
    "val_loss_avg s' = val_loss_avg s @ (case dest of Passed \<Rightarrow> [?avg] | DefaultArg \<Rightarrow> [])"
    "validate_default s' = validate_default s @ (case dest of Passed \<Rightarrow> [] | DefaultArg \<Rightarrow> [?avg])"
    "global_step s' = global_step s" "model s' = model s" "optimizer s' = optimizer s"
    "events s' = events s @ replicate (batches_run a (length loader)) (RetMask (global_step s))"
    "train_loss_avg s' = train_loss_avg s" "top_acc s' = top_acc s"
    "best_epoch s' = best_epoch s" "checkpoint s' = checkpoint s"
    "saved_epochs s' = saved_epochs s"
    using run unfolding s' acc by (cases dest; simp)+
  from bne run have lf: "0 < log_freq a" by simp
  show ?thesis
    using vb bne lf pos acc flds by blast
qed

lemma validate_returns:
  assumes "validate_batches a env 0 loader
         (s, \<lparr>correct_1 = 0, correct_5 = 0, total = 0, current_losses = []\<rparr>) = Inr (s1, t)"
    and "0 < total t"
  shows "\<exists>s'. validate a env loader dest s = Inr (100 * real (correct_1 t) / real (total t), s')"
proof -
  note run = validate_batches_run [OF assms(1)]
  have "current_losses t \<noteq> []"
  proof
    assume "current_losses t = []"
    with run have "batches_run a (length loader) = 0" by simp
    with run assms(2) show False by simp
  qed
  with assms show ?thesis
    by (cases dest) (auto simp: validate_def mean_def Let_def)
qed

section \<open>The epoch loop\<close>

lemma run_epochs_lengths:
  "run_epochs a env trl vll es s = Inr s' \<Longrightarrow>
     length (top1_accuracies s') = length (top1_accuracies s) + length es
   \<and> length (top5_accuracies s') = length (top5_accuracies s) + length es
   \<and> length (val_loss_avg s') = length (val_loss_avg s) + length es
   \<and> length (train_loss_avg s') = length (train_loss_avg s) + length es
   \<and> validate_default s' = validate_default s"
proof (induction es arbitrary: s)
  case Nil
  then show ?case by simp
next
  case (Cons e es)
  from Cons.prems obtain s1 where t: "train_one_epoch a env e trl s = Inr s1"
    by (auto split: sum.splits)
  with Cons.prems obtain acc s2 where v: "validate a env vll Passed s1 = Inr (acc, s2)"
    by (auto split: sum.splits)
  let ?s3 = "if acc > top_acc s2
       then s2\<lparr>checkpoint := Some (model s2), saved_epochs := saved_epochs s2 @ [e + 1],
               top_acc := acc, best_epoch := e + 1\<rparr>
       else s2"
  from Cons.prems t v have r: "run_epochs a env trl vll es ?s3 = Inr s'" by simp
  note te = train_one_epoch_effect [OF t]
  from validate_effect [OF v] obtain avg a5 where ve:
    "top1_accuracies s2 = top1_accuracies s1 @ [acc]"
    "top5_accuracies s2 = top5_accuracies s1 @ [a5]"
    "val_loss_avg s2 = val_loss_avg s1 @ [avg]"
    "validate_default s2 = validate_default s1"
    "train_loss_avg s2 = train_loss_avg s1"
    by auto
  from te obtain tavg where ta: "train_loss_avg s1 = train_loss_avg s @ [tavg]" by blast
  have s3: "top1_accuracies ?s3 = top1_accuracies s2" "top5_accuracies ?s3 = top5_accuracies s2"
    "val_loss_avg ?s3 = val_loss_avg s2" "train_loss_avg ?s3 = train_loss_avg s2"
    "validate_default ?s3 = validate_default s2"
    by simp_all
  from Cons.IH [OF r] show ?case
    unfolding s3 using ve te ta by simp
qed

lemma new_best_append:
  "i < length accs \<Longrightarrow> new_best (accs @ [x]) i = new_best accs i"
  by (auto simp: new_best_def exceeds_prior_def nth_append)

lemma new_best_last:
  "new_best (accs @ [x]) (length accs) \<longleftrightarrow> Max (insert 0 (set accs)) < x"
proof -
  have "(\<forall>j<length accs. accs ! j < x) \<longleftrightarrow> (\<forall>y \<in> set accs. y < x)"
    by (metis in_set_conv_nth)
  then show ?thesis
    by (auto simp: new_best_def exceeds_prior_def nth_append)
qed

lemma filter_new_best_append:
  "filter (new_best (accs @ [x])) [0..<length accs] = filter (new_best accs) [0..<length accs]"
  by (rule filter_cong) (simp_all add: new_best_append)

lemma Max_snoc:
  "Max (insert 0 (set (accs @ [x]))) = max x (Max (insert (0::real) (set accs)))"
proof -
  have e: "insert 0 (set (accs @ [x])) = insert x (insert 0 (set accs))" by auto
  have "Max (insert x (insert 0 (set accs))) = max x (Max (insert 0 (set accs)))"
    by (rule Max_insert) simp_all
  with e show ?thesis by (simp only:)
qed

lemma selector_inv_cong:
  "top1_accuracies s1 = top1_accuracies s \<Longrightarrow> top_acc s1 = top_acc s \<Longrightarrow>
   saved_epochs s1 = saved_epochs s \<Longrightarrow> best_epoch s1 = best_epoch s \<Longrightarrow>
   selector_inv k s1 = selector_inv k s"
  by (simp only: selector_inv_def)

lemma selector_step:
  assumes inv: "selector_inv k s2'"
    and top1: "top1_accuracies s2 = top1_accuracies s2' @ [acc]"
    and same: "top_acc s2 = top_acc s2'" "saved_epochs s2 = saved_epochs s2'"
      "best_epoch s2 = best_epoch s2'"
  shows "selector_inv (Suc k)
           (if acc > top_acc s2
            then s2\<lparr>checkpoint := Some (model s2), saved_epochs := saved_epochs s2 @ [k + 1],
                    top_acc := acc, best_epoch := k + 1\<rparr>
            else s2)"
proof -
  let ?accs = "top1_accuracies s2'"
  let ?sel = "filter (new_best ?accs) [0..<k]"
  from inv [unfolded selector_inv_def] have len: "length ?accs = k"
    and ta: "top_acc s2' = Max (insert 0 (set ?accs))"
    and sv: "saved_epochs s2' = map Suc ?sel"
    and be: "best_epoch s2' = (if saved_epochs s2' = [] then 0 else last (saved_epochs s2'))"
    and tb: "saved_epochs s2' \<noteq> [] \<longrightarrow> top_acc s2' = ?accs ! (best_epoch s2' - 1)"
    by blast+
  have flt: "filter (new_best (?accs @ [acc])) [0..<Suc k] =
      ?sel @ (if Max (insert 0 (set ?accs)) < acc then [k] else [])"
    using filter_new_best_append [of ?accs acc] new_best_last [of ?accs acc] len by simp
  show ?thesis
  proof (cases "acc > top_acc s2")
    case True
    let ?s3 = "s2\<lparr>checkpoint := Some (model s2), saved_epochs := saved_epochs s2 @ [k + 1],
                    top_acc := acc, best_epoch := k + 1\<rparr>"
    from True have gt: "Max (insert 0 (set ?accs)) < acc" using same(1) ta by metis
    then have mx: "Max (insert 0 (set (?accs @ [acc]))) = acc"
      by (metis Max_snoc max.absorb3)
    have c1: "length (top1_accuracies ?s3) = Suc k" using top1 len by simp
    have c2: "top_acc ?s3 = Max (insert 0 (set (top1_accuracies ?s3)))"
      using mx top1 by simp
    have c3: "saved_epochs ?s3 = map Suc (filter (new_best (top1_accuracies ?s3)) [0..<Suc k])"
      using flt gt same(2) sv top1 by simp
    have ne: "saved_epochs ?s3 \<noteq> []" by simp
    have c4: "best_epoch ?s3 = (if saved_epochs ?s3 = [] then 0 else last (saved_epochs ?s3))"
      by simp
    have c5: "saved_epochs ?s3 \<noteq> [] \<longrightarrow> top_acc ?s3 = top1_accuracies ?s3 ! (best_epoch ?s3 - 1)"
      using top1 len by (simp add: nth_append)
    have "selector_inv (Suc k) ?s3"
      unfolding selector_inv_def using c1 c2 c3 c4 c5 by blast
    with True show ?thesis by simp
  next
    case False
    then have ngt: "\<not> Max (insert 0 (set ?accs)) < acc" using same(1) ta by metis
    then have mx: "Max (insert 0 (set (?accs @ [acc]))) = Max (insert 0 (set ?accs))"
      by (metis Max_snoc max.absorb2 not_le_imp_less)
    have c1: "length (top1_accuracies s2) = Suc k" using top1 len by simp
    have c2: "top_acc s2 = Max (insert 0 (set (top1_accuracies s2)))"
      using mx top1 same(1) ta by simp
    have c3: "saved_epochs s2 = map Suc (filter (new_best (top1_accuracies s2)) [0..<Suc k])"
      using flt ngt same(2) sv top1 by simp
    have c4: "best_epoch s2 = (if saved_epochs s2 = [] then 0 else last (saved_epochs s2))"
      using be same by simp
    have c5: "saved_epochs s2 \<noteq> [] \<longrightarrow> top_acc s2 = top1_accuracies s2 ! (best_epoch s2 - 1)"
    proof
      assume ne: "saved_epochs s2 \<noteq> []"
      then have ne': "saved_epochs s2' \<noteq> []" using same by simp
      then have "last (saved_epochs s2') \<in> set (saved_epochs s2')" by simp
      then have "last (saved_epochs s2') \<in> Suc ` {0..<k}" unfolding sv by auto
      then have "last (saved_epochs s2') - 1 < k" by auto
      with be ne' have "best_epoch s2' - 1 < length ?accs" using len by simp
      then have "(?accs @ [acc]) ! (best_epoch s2' - 1) = ?accs ! (best_epoch s2' - 1)"
        by (simp add: nth_append)
      with tb ne' show "top_acc s2 = top1_accuracies s2 ! (best_epoch s2 - 1)"
        using same top1 by simp
    qed
    have "selector_inv (Suc k) s2"
      unfolding selector_inv_def using c1 c2 c3 c4 c5 by blast
    with False show ?thesis by simp
  qed
qed

lemma run_epochs_selector:
  "run_epochs a env trl vll [k..<n] s = Inr s' \<Longrightarrow> k \<le> n \<Longrightarrow> selector_inv k s \<Longrightarrow>
     selector_inv n s'"
proof (induction "n - k" arbitrary: k s)
  case 0
  then show ?case by simp
next
  case (Suc d)
  then have lt: "k < n" by simp
  then have up: "[k..<n] = k # [Suc k..<n]" by (simp add: upt_conv_Cons)
  from Suc.prems(1) obtain s1 where t: "train_one_epoch a env k trl s = Inr s1"
    unfolding up by (auto split: sum.splits)
  with Suc.prems(1) obtain acc s2 where v: "validate a env vll Passed s1 = Inr (acc, s2)"
    unfolding up by (auto split: sum.splits)
  let ?s3 = "if acc > top_acc s2
       then s2\<lparr>checkpoint := Some (model s2), saved_epochs := saved_epochs s2 @ [k + 1],
               top_acc := acc, best_epoch := k + 1\<rparr>
       else s2"
  from Suc.prems(1) t v have r: "run_epochs a env trl vll [Suc k..<n] ?s3 = Inr s'"
    unfolding up by simp
  note te = train_one_epoch_effect [OF t]
  from validate_effect [OF v] have ve:
    "top1_accuracies s2 = top1_accuracies s1 @ [acc]"
    "top_acc s2 = top_acc s1" "saved_epochs s2 = saved_epochs s1"
    "best_epoch s2 = best_epoch s1"
    by auto
  have inv1: "selector_inv k s1"
    using Suc.prems(3) selector_inv_cong [of s1 s k] te by blast
  have inv3: "selector_inv (Suc k) ?s3"
    by (rule selector_step [OF inv1 ve])
  from Suc.hyps(2) lt have d: "d = n - Suc k" by simp
  show ?case
    by (rule Suc.hyps(1) [OF d r _ inv3]) (use lt in simp)
qed

section \<open>Evaluating the concrete runs\<close>

lemma counting_env_sel:
  "ret_mask (counting_env f) = (\<lambda>r g. (None, r))"
  "forward (counting_env f) = (\<lambda>m images text. Out (f m))"
  "criterion (counting_env f) = (\<lambda>outputs labels. 20 - real (fst outputs))"
  "criterion_text (counting_env f) = (\<lambda>t l. 1 / 4)"
  "accuracy (counting_env f) = (\<lambda>outputs labels. outputs)"
  "optimize (counting_env f) = (\<lambda>m p b masks. (m + 1, p))"
  "lr_scheduler (counting_env f) = Some Suc"
  by (simp_all add: counting_env_def)

lemma toy_args_sel:
  "multimodal toy_args = False" "mask_schedule toy_args = False"
  "exclusion_loss toy_args = False" "debugging toy_args = False"
  "log_freq toy_args = 1" "epoch_decay toy_args = 1" "no_epochs toy_args = 3"
  "max_text_seq_len toy_args = 3" "inference_mode toy_args = ''multimodal''"
  "masking_behavior toy_args = ''constant''"
  "exclusion_weight toy_args = 1 / 2" "temperature toy_args = 2"
  by (simp_all add: toy_args_def)

lemma counting_masked_loss:
  "\<not> multimodal a \<Longrightarrow> \<not> exclusion_loss a \<Longrightarrow>
   masked_loss a (counting_env f) m () labels None None = Inr (20 - real (fst (f m)), f m)"
  by (simp add: masked_loss_def forward_pass_def compose_loss_def counting_env_sel)

lemma counting_train_step:
  "\<not> multimodal a \<Longrightarrow> \<not> exclusion_loss a \<Longrightarrow> 0 < log_freq a \<Longrightarrow>
   train_step a (counting_env f) (Batch2 () labels) (s, ls) =
     Inr (s\<lparr>events := events s @ [RetMask (global_step s), OptimizerStep, LrSchedulerStep,
               StepIncrement],
            model := model s + 1, optimizer := Suc (optimizer s),
            global_step := global_step s + 1\<rparr>,
          ls @ [20 - real (fst (f (model s)))])"
  by (simp add: train_step_def unpack_batch_def counting_env_sel counting_masked_loss Let_def)

lemma counting_train_epoch:
  "\<not> multimodal a \<Longrightarrow> \<not> exclusion_loss a \<Longrightarrow> 0 < log_freq a \<Longrightarrow>
   train_one_epoch a (counting_env f) e toy_train_loader s =
     Inr (s\<lparr>events := events s @ [RetMask (global_step s), OptimizerStep, LrSchedulerStep,
               StepIncrement],
            model := model s + 1, optimizer := Suc (optimizer s),
            global_step := global_step s + 1,
            train_loss_avg := train_loss_avg s @ [20 - real (fst (f (model s)))]\<rparr>)"
  by (simp add: train_one_epoch_def toy_train_loader_def counting_train_step counting_env_sel
      mean_def)

lemma counting_validate_step:
  "\<not> multimodal a \<Longrightarrow> \<not> exclusion_loss a \<Longrightarrow> 0 < log_freq a \<Longrightarrow>
   validate_step a (counting_env f) (Batch2 () labels) (s, t) =
     Inr (s\<lparr>events := events s @ [RetMask (global_step s)]\<rparr>,
          t\<lparr>current_losses := current_losses t @ [20 - real (fst (f (model s)))],
            total := total t + length labels,
            correct_1 := correct_1 t + fst (f (model s)),
            correct_5 := correct_5 t + snd (f (model s))\<rparr>)"
  by (simp add: validate_step_def unpack_batch_def counting_env_sel counting_masked_loss Let_def)

lemma counting_validate:
  "\<not> multimodal a \<Longrightarrow> \<not> exclusion_loss a \<Longrightarrow> 0 < log_freq a \<Longrightarrow> labels \<noteq> [] \<Longrightarrow>
   validate a (counting_env f) [Batch2 () labels] dest s =
     Inr (100 * real (fst (f (model s))) / real (length labels),
          (case dest of
             Passed \<Rightarrow> s\<lparr>val_loss_avg := val_loss_avg s @ [20 - real (fst (f (model s)))]\<rparr>
           | DefaultArg \<Rightarrow>
               s\<lparr>validate_default := validate_default s @ [20 - real (fst (f (model s)))]\<rparr>)
           \<lparr>events := events s @ [RetMask (global_step s)],
            top1_accuracies := top1_accuracies s
               @ [100 * real (fst (f (model s))) / real (length labels)],
            top5_accuracies := top5_accuracies s
               @ [100 * real (snd (f (model s))) / real (length labels)]\<rparr>)"
  by (cases dest)
    (simp_all add: validate_def counting_validate_step Let_def mean_def)

lemma upt3: "[0..<3] = [0, 1, 2]"
  by (simp add: upt_rec)

lemma toy_main_run:
  "train_main toy_args (counting_env toy_counts) toy_train_loader toy_val_loader toy_val_loader
       (initial_state 0 0 0 []) = Inr toy_final"
  by (simp add: train_main_def toy_args_sel upt3 counting_train_epoch counting_validate
      toy_val_loader_def initial_state_def toy_counts_def toy_final_def)

lemma toy_epoch_run:
  "train_one_epoch toy_args (counting_env toy_counts) 0 toy_train_loader
       (initial_state 0 0 0 []) = Inr toy_epoch1"
  by (simp add: counting_train_epoch toy_args_sel initial_state_def toy_counts_def
      toy_epoch1_def)

lemma zero_main_run:
  "train_main (toy_args\<lparr>no_epochs := 1\<rparr>) (counting_env zero_counts) toy_train_loader
       toy_val_loader toy_val_loader (initial_state 0 0 0 []) = Inr zero_final"
  by (simp add: train_main_def toy_args_sel counting_train_epoch counting_validate
      toy_val_loader_def initial_state_def zero_counts_def zero_final_def)

lemma topk_validate_run:
  "validate toy_args topk_env [Batch2 () [0]] Passed (initial_state 0 0 0 []) =
     Inr (0, topk_validated)"
  by code_simp

lemma text_args_sel:
  "multimodal text_args" "mask_schedule text_args" "exclusion_loss text_args"
  "log_freq text_args = 1" "max_text_seq_len text_args = 3"
  "exclusion_weight text_args = 1 / 2" "temperature text_args = 2"
  by (simp_all add: text_args_def)

lemma text_env_sel:
  "ret_mask text_env = (\<lambda>r g. (Some [[1, 0, 0, 1, 0], [1, 1, 0, 0, 0]], r))"
  "forward text_env = (\<lambda>m images text. OutTextExcl (14, 19) () 3)"
  "criterion text_env = (\<lambda>outputs labels. 20 - real (fst outputs))"
  "criterion_text text_env = (\<lambda>t targets. real (supervised targets))"
  "accuracy text_env = (\<lambda>outputs labels. outputs)"
  "optimize text_env = (\<lambda>m p b masks. (m + 1, p))"
  "lr_scheduler text_env = Some Suc"
  by (simp_all add: text_env_def)

lemma text_targets_run:
  "text_targets text_args (Some [[101, 7, 8], [9, 102, 0]]) [[1, 0, 0, 1, 0], [1, 1, 0, 0, 0]]
     = Inr [[- 100, - 100, 8], [9, - 100, - 100]]"
  by (simp add: text_targets_def where2_def where_row_def broadcast_dim_def expand_def
      slice_last_def text_args_sel)

lemma text_masked_loss:
  "masked_loss text_args text_env m () labels (Some [[101, 7, 8], [9, 102, 0]])
       (Some [[1, 0, 0, 1, 0], [1, 1, 0, 0, 0]]) = Inr (2, (14, 19))"
  by (simp add: masked_loss_def text_targets_run forward_pass_def call_multimodal_def
      compose_loss_def text_args_sel text_env_sel supervised_def)

lemma text_train_step:
  "train_step text_args text_env text_batch (s, ls) =
     Inr (s\<lparr>events := events s @ [RetMask (global_step s), OptimizerStep, LrSchedulerStep,
               StepIncrement],
            model := model s + 1, optimizer := Suc (optimizer s),
            global_step := global_step s + 1\<rparr>,
          ls @ [2])"
  by (simp add: train_step_def text_batch_def unpack_batch_def text_args_sel text_env_sel
      text_masked_loss Let_def)

lemma text_validate_step:
  "validate_step text_args text_env text_batch (s, t) =
     Inr (s\<lparr>events := events s @ [RetMask (global_step s)]\<rparr>,
          t\<lparr>current_losses := current_losses t @ [2],
            total := total t + 2,
            correct_1 := correct_1 t + 14,
            correct_5 := correct_5 t + 19\<rparr>)"
  by (simp add: validate_step_def text_batch_def unpack_batch_def text_args_sel text_env_sel
      text_masked_loss Let_def)

section \<open>The loss (train.py 118-122, 209-213)\<close>

lemma compose_loss_returns:
  "(\<exists>loss. compose_loss a env outputs labels masks outputs_text labels_text excl = Inr loss) \<longleftrightarrow>
     (masks \<noteq> None \<longrightarrow> outputs_text \<noteq> None \<and> labels_text \<noteq> None) \<and>
     (exclusion_loss a \<longrightarrow> excl \<noteq> None)"
  by (auto simp: compose_loss_def Let_def split: option.splits)

text \<open>Lines 118-122 on their own, in closed form.\<close>

lemma compose_loss_closed_form:
  "compose_loss a env outputs labels None ot lt (Some ex) =
     Inr (criterion env outputs labels
          - (if exclusion_loss a then exclusion_weight a * (temperature a)\<^sup>2 * ex else 0))
   \<and> compose_loss a env outputs labels (Some mk) (Some t) (Some l) (Some ex) =
     Inr (criterion env outputs labels + criterion_text env t l
          - (if exclusion_loss a then exclusion_weight a * (temperature a)\<^sup>2 * ex else 0))
   \<and> (\<not> exclusion_loss a \<longrightarrow>
        compose_loss a env outputs labels None ot lt excl = Inr (criterion env outputs labels)
      \<and> compose_loss a env outputs labels (Some mk) (Some t) (Some l) excl =
          Inr (criterion env outputs labels + criterion_text env t l))"
  by (simp add: compose_loss_def Let_def)

lemma masked_loss_composition:
  assumes "masked_loss a env m images labels captions masks = Inr (loss, outputs)"
  shows "\<exists>outputs_text excl text_term excl_term.
       forward_pass a env m images captions masks = Inr (outputs, outputs_text, excl)
     \<and> (case masks of
           None \<Rightarrow> text_term = 0
         | Some mk \<Rightarrow> \<exists>ot lt. outputs_text = Some ot \<and> text_targets a captions mk = Inr lt
                         \<and> text_term = criterion_text env ot lt)
     \<and> (if exclusion_loss a
         then \<exists>ex. excl = Some ex \<and> excl_term = exclusion_weight a * (temperature a)\<^sup>2 * ex
         else excl_term = 0)
     \<and> loss = criterion env outputs labels + text_term - excl_term"
  using assms
  by (auto simp: masked_loss_def compose_loss_def Let_def
      split: sum.splits option.splits prod.splits if_splits)

lemma step_records_loss:
  assumes "train_step a env b (s, ls) = Inr (s', ls')
     \<or> (validate_step a env b (s, t) = Inr (s', t')
         \<and> ls = current_losses t \<and> ls' = current_losses t')"
  shows "\<exists>images labels captions masks r loss outputs.
       unpack_batch a b = Inr (images, labels, captions)
     \<and> ret_mask env (rng s) (global_step s) = (masks, r)
     \<and> masked_loss a env (model s) images labels captions masks = Inr (loss, outputs)
     \<and> ls' = ls @ [loss]"
  using assms
  by (auto simp: train_step_def validate_step_def Let_def
      split: sum.splits prod.splits if_splits)

lemma step_loss_terms:
  assumes "train_step a env b (s, ls) = Inr (s', ls')
     \<or> (validate_step a env b (s, t) = Inr (s', t')
         \<and> ls = current_losses t \<and> ls' = current_losses t')"
  shows "\<exists>images labels captions masks r outputs outputs_text excl text_term excl_term.
       unpack_batch a b = Inr (images, labels, captions)
     \<and> ret_mask env (rng s) (global_step s) = (masks, r)
     \<and> forward_pass a env (model s) images captions masks = Inr (outputs, outputs_text, excl)
     \<and> (case masks of
           None \<Rightarrow> text_term = 0
         | Some mk \<Rightarrow> \<exists>ot lt. outputs_text = Some ot \<and> text_targets a captions mk = Inr lt
                         \<and> text_term = criterion_text env ot lt)
     \<and> (if exclusion_loss a
         then \<exists>ex. excl = Some ex \<and> excl_term = exclusion_weight a * (temperature a)\<^sup>2 * ex
         else excl_term = 0)
     \<and> ls' = ls @ [criterion env outputs labels + text_term - excl_term]"
proof -
  from step_records_loss [OF assms] obtain images labels captions masks r loss outputs where
    up: "unpack_batch a b = Inr (images, labels, captions)"
    and rm: "ret_mask env (rng s) (global_step s) = (masks, r)"
    and ml: "masked_loss a env (model s) images labels captions masks = Inr (loss, outputs)"
    and rec: "ls' = ls @ [loss]"
    by blast
  from masked_loss_composition [OF ml] obtain outputs_text excl text_term excl_term where
    fp: "forward_pass a env (model s) images captions masks = Inr (outputs, outputs_text, excl)"
    and tt: "case masks of
           None \<Rightarrow> text_term = 0
         | Some mk \<Rightarrow> \<exists>ot lt. outputs_text = Some ot \<and> text_targets a captions mk = Inr lt
                         \<and> text_term = criterion_text env ot lt"
    and et: "if exclusion_loss a
         then \<exists>ex. excl = Some ex \<and> excl_term = exclusion_weight a * (temperature a)\<^sup>2 * ex
         else excl_term = 0"
    and loss: "loss = criterion env outputs labels + text_term - excl_term"
    by blast
  from rec loss have "ls' = ls @ [criterion env outputs labels + text_term - excl_term]"
    by simp
  with up rm fp tt et show ?thesis by blast
qed

text \<open>
  Claim C5. The loss a training or validation batch records is the classification
  cross-entropy of the forward pass, plus the text cross-entropy against the batch's text
  targets when the mask scheduler returned a mask, minus
  \<open>exclusion_weight * temperature\<^sup>2 * exclusion_term\<close> when the exclusion objective is
  enabled; with the objective disabled it is the one-term or two-term sum itself.
\<close>

theorem recorded_loss_composition:
  assumes "train_step a env b (s, ls) = Inr (s', ls')
     \<or> (validate_step a env b (s, t) = Inr (s', t')
         \<and> ls = current_losses t \<and> ls' = current_losses t')"
  shows "\<exists>images labels captions masks r outputs outputs_text excl text_term excl_term.
       unpack_batch a b = Inr (images, labels, captions)
     \<and> ret_mask env (rng s) (global_step s) = (masks, r)
     \<and> forward_pass a env (model s) images captions masks = Inr (outputs, outputs_text, excl)
     \<and> (case masks of
           None \<Rightarrow> text_term = 0
         | Some mk \<Rightarrow> \<exists>ot lt. outputs_text = Some ot \<and> text_targets a captions mk = Inr lt
                         \<and> text_term = criterion_text env ot lt)
     \<and> (if exclusion_loss a
         then \<exists>ex. excl = Some ex \<and> excl_term = exclusion_weight a * (temperature a)\<^sup>2 * ex
         else excl_term = 0)
     \<and> ls' = ls @ [criterion env outputs labels + text_term - excl_term]
     \<and> (\<not> exclusion_loss a \<longrightarrow>
           ls' = ls @ [case masks of
                         None \<Rightarrow> criterion env outputs labels
                       | Some _ \<Rightarrow> criterion env outputs labels + text_term])"
proof -
  from step_loss_terms [OF assms] obtain images labels captions masks r outputs outputs_text
      excl text_term excl_term where
    up: "unpack_batch a b = Inr (images, labels, captions)"
    and rm: "ret_mask env (rng s) (global_step s) = (masks, r)"
    and fp: "forward_pass a env (model s) images captions masks = Inr (outputs, outputs_text, excl)"
    and tt: "case masks of
           None \<Rightarrow> text_term = 0
         | Some mk \<Rightarrow> \<exists>ot lt. outputs_text = Some ot \<and> text_targets a captions mk = Inr lt
                         \<and> text_term = criterion_text env ot lt"
    and et: "if exclusion_loss a
         then \<exists>ex. excl = Some ex \<and> excl_term = exclusion_weight a * (temperature a)\<^sup>2 * ex
         else excl_term = 0"
    and rec: "ls' = ls @ [criterion env outputs labels + text_term - excl_term]"
    by blast
  have off: "\<not> exclusion_loss a \<longrightarrow>
           ls' = ls @ [case masks of
                         None \<Rightarrow> criterion env outputs labels
                       | Some _ \<Rightarrow> criterion env outputs labels + text_term]"
    using rec tt et by (cases masks) auto
  from up rm fp tt et rec off show ?thesis by blast
qed

theorem recorded_loss_composition_witness:
  "(\<exists>s'. train_step text_args text_env text_batch (initial_state 0 0 0 [], [])
            = Inr (s', [6 + real (supervised [[- 100, - 100, 8], [9, - 100, - 100]])
                          - 1 / 2 * 2\<^sup>2 * 3]))
   \<and> exclusion_loss text_args
   \<and> (\<exists>s'. train_step toy_args (counting_env toy_counts) (Batch2 () [0])
               (initial_state 0 0 0 [], []) = Inr (s', [5]))
   \<and> \<not> exclusion_loss toy_args"
proof -
  let ?s = "(initial_state 0 0 0 [])
      \<lparr>events := [RetMask 0, OptimizerStep, LrSchedulerStep, StepIncrement],
       model := 1, optimizer := 1, global_step := 1\<rparr> :: (nat, nat, nat) state"
  have e1: "train_step text_args text_env text_batch (initial_state 0 0 0 [], []) = Inr (?s, [2])"
    by (simp add: text_train_step initial_state_def)
  have e2: "train_step toy_args (counting_env toy_counts) (Batch2 () [0])
      (initial_state 0 0 0 [], []) = Inr (?s, [5])"
    by (simp add: counting_train_step toy_args_sel initial_state_def toy_counts_def)
  have sup: "supervised [[- 100, - 100, 8], [9, - 100, - 100]] = 2"
    by (simp add: supervised_def)
  from recorded_loss_composition [OF disjI1 [OF e1]] recorded_loss_composition [OF disjI1 [OF e2]]
    e1 e2 sup
  show ?thesis
    by (intro conjI exI [of _ ?s]) (simp_all add: text_args_sel toy_args_sel)
qed

section \<open>Checkpoint selection (train.py 286-299)\<close>

lemma selector_inv_initial: "selector_inv 0 (initial_state m0 p0 r0 d0)"
  by (simp add: selector_inv_def initial_state_def)

text \<open>
  Claim C1, as amended. For a run that ends, the checkpoint is written after exactly the
  epochs whose validation top-1 is above 0 and above every earlier epoch's; \<open>top_acc\<close>
  and \<open>best_epoch\<close> hold that accuracy and the 1-indexed number of the last such epoch;
  the test pass after the loop leaves checkpoint, \<open>top_acc\<close> and \<open>best_epoch\<close> as the
  loop left them; and for 70, 65, 75 the checkpoint is written after epochs 1 and 3.
\<close>

theorem checkpoint_selection:
  assumes run: "train_main a env trl vll tel (initial_state m0 p0 r0 d0) = Inr s'"
  shows "length (top1_accuracies s') = no_epochs a + 1
     \<and> saved_epochs s' = map Suc (filter (new_best (top1_accuracies s')) [0..<no_epochs a])
     \<and> (\<forall>e. e \<in> set (saved_epochs s') \<longleftrightarrow>
            1 \<le> e \<and> e \<le> no_epochs a \<and> new_best (top1_accuracies s') (e - 1))
     \<and> top_acc s' = Max (insert 0 (set (take (no_epochs a) (top1_accuracies s'))))
     \<and> best_epoch s' = (if saved_epochs s' = [] then 0 else last (saved_epochs s'))
     \<and> (saved_epochs s' \<noteq> [] \<longrightarrow> top_acc s' = top1_accuracies s' ! (best_epoch s' - 1))
     \<and> (\<exists>s. run_epochs a env trl vll [0..<no_epochs a] (initial_state m0 p0 r0 d0) = Inr s
            \<and> saved_epochs s' = saved_epochs s \<and> top_acc s' = top_acc s
            \<and> best_epoch s' = best_epoch s \<and> checkpoint s' = checkpoint s)
     \<and> (no_epochs a = 3 \<and> take 3 (top1_accuracies s') = [70, 65, 75] \<longrightarrow>
            saved_epochs s' = [1, 3] \<and> best_epoch s' = 3)"
proof -
  let ?n = "no_epochs a"
  from run obtain s where
    loop: "run_epochs a env trl vll [0..<?n] (initial_state m0 p0 r0 d0) = Inr s"
    by (auto simp: train_main_def split: sum.splits)
  with run obtain acc where
    test: "validate a env tel DefaultArg s = Inr (acc, s')"
    by (auto simp: train_main_def split: sum.splits)
  from validate_effect [OF test] have ve:
    "top1_accuracies s' = top1_accuracies s @ [acc]"
    "saved_epochs s' = saved_epochs s" "top_acc s' = top_acc s"
    "best_epoch s' = best_epoch s" "checkpoint s' = checkpoint s"
    by auto
  have inv: "selector_inv ?n s"
    by (rule run_epochs_selector [OF loop _ selector_inv_initial]) simp
  let ?accs = "top1_accuracies s"
  from inv [unfolded selector_inv_def] have len: "length ?accs = ?n"
    and ta: "top_acc s = Max (insert 0 (set ?accs))"
    and sv: "saved_epochs s = map Suc (filter (new_best ?accs) [0..<?n])"
    and be: "best_epoch s = (if saved_epochs s = [] then 0 else last (saved_epochs s))"
    and tb: "saved_epochs s \<noteq> [] \<longrightarrow> top_acc s = ?accs ! (best_epoch s - 1)"
    by blast+
  have c1: "length (top1_accuracies s') = ?n + 1" using ve len by simp
  have c2: "saved_epochs s' = map Suc (filter (new_best (top1_accuracies s')) [0..<?n])"
    using sv filter_new_best_append [of ?accs acc] len ve by simp
  have c3: "\<forall>e. e \<in> set (saved_epochs s') \<longleftrightarrow>
            1 \<le> e \<and> e \<le> ?n \<and> new_best (top1_accuracies s') (e - 1)"
  proof
    fix e
    show "e \<in> set (saved_epochs s') \<longleftrightarrow>
            1 \<le> e \<and> e \<le> ?n \<and> new_best (top1_accuracies s') (e - 1)"
      unfolding c2 by (cases e) auto
  qed
  have c4: "top_acc s' = Max (insert 0 (set (take ?n (top1_accuracies s'))))"
    using ta ve len by simp
  have c5: "best_epoch s' = (if saved_epochs s' = [] then 0 else last (saved_epochs s'))"
    using be ve by simp
  have c6: "saved_epochs s' \<noteq> [] \<longrightarrow> top_acc s' = top1_accuracies s' ! (best_epoch s' - 1)"
  proof
    assume ne: "saved_epochs s' \<noteq> []"
    then have ne': "saved_epochs s \<noteq> []" using ve by simp
    then have "last (saved_epochs s) \<in> set (saved_epochs s)" by simp
    then have "last (saved_epochs s) \<in> Suc ` {0..<?n}" unfolding sv by auto
    then have "last (saved_epochs s) - 1 < ?n" by auto
    with be ne' have "best_epoch s - 1 < length ?accs" using len by simp
    then have "(?accs @ [acc]) ! (best_epoch s - 1) = ?accs ! (best_epoch s - 1)"
      by (simp add: nth_append)
    with tb ne' show "top_acc s' = top1_accuracies s' ! (best_epoch s' - 1)"
      using ve by simp
  qed
  have c7: "\<exists>s. run_epochs a env trl vll [0..<?n] (initial_state m0 p0 r0 d0) = Inr s
            \<and> saved_epochs s' = saved_epochs s \<and> top_acc s' = top_acc s
            \<and> best_epoch s' = best_epoch s \<and> checkpoint s' = checkpoint s"
    using loop ve by blast
  have c8: "?n = 3 \<and> take 3 (top1_accuracies s') = [70, 65, 75] \<longrightarrow>
            saved_epochs s' = [1, 3] \<and> best_epoch s' = 3"
  proof
    assume h: "?n = 3 \<and> take 3 (top1_accuracies s') = [70, 65, 75]"
    then have n3: "?n = 3" and tk: "take 3 (top1_accuracies s') = [70, 65, 75]" by blast+
    have "take 3 (top1_accuracies s') = ?accs" using ve(1) len n3 by simp
    with tk have accs: "?accs = [70, 65, 75]" by simp
    have "filter (new_best ?accs) [0..<3] = [0, 2]"
      unfolding accs
      by (simp add: upt3 new_best_def exceeds_prior_def numeral_2_eq_2 less_Suc_eq)
    with sv h have "saved_epochs s = [1, 3]" by simp
    with be ve show "saved_epochs s' = [1, 3] \<and> best_epoch s' = 3" by simp
  qed
  from c1 c2 c3 c4 c5 c6 c7 c8 show ?thesis by blast
qed

theorem checkpoint_selection_witness:
  "train_main toy_args (counting_env toy_counts) toy_train_loader toy_val_loader toy_val_loader
       (initial_state 0 0 0 []) = Inr toy_final
   \<and> no_epochs toy_args = 3
   \<and> take 3 (top1_accuracies toy_final) = [70, 65, 75]
   \<and> saved_epochs toy_final = [1, 3] \<and> best_epoch toy_final = 3 \<and> top_acc toy_final = 75"
  using checkpoint_selection [OF toy_main_run] toy_main_run
  by (simp add: toy_final_def toy_args_sel)

text \<open>
  Claim C1 as stated fails on the first epoch: with no validation example right, its
  accuracy 0 is above every earlier epoch's (there is none), and no checkpoint is
  written.
\<close>

theorem checkpoint_selection_counterexample:
  "train_main (toy_args\<lparr>no_epochs := 1\<rparr>) (counting_env zero_counts) toy_train_loader
       toy_val_loader toy_val_loader (initial_state 0 0 0 []) = Inr zero_final
   \<and> exceeds_prior (top1_accuracies zero_final) 0
   \<and> 1 \<notin> set (saved_epochs zero_final)"
  using zero_main_run by (simp add: zero_final_def exceeds_prior_def)

section \<open>The step counter (train.py 96, 125-134)\<close>

text \<open>
  Claim C2, as amended. An epoch that ends has advanced the counter by one per batch it
  went through, and its calls are, batch after batch: the mask query with the counter
  value of before the batch, the optimizer update, the step of the learning-rate
  scheduler when there is one, and the increment last. So the \<open>k\<close>-th batch of
  the epoch (from 0) queries the mask scheduler with the entry value plus \<open>k\<close>.
\<close>

theorem step_counter_order:
  assumes "train_one_epoch a env epoch loader s = Inr s'"
  shows "global_step s' = global_step s + batches_run a (length loader)
     \<and> events s' = events s
          @ concat (map (\<lambda>k. batch_events env (global_step s + k))
                      [0..<batches_run a (length loader)])
          @ decay_events a env epoch
     \<and> hd (batch_events env g) = RetMask g
     \<and> last (batch_events env g) = StepIncrement
     \<and> count_list (batch_events env g) StepIncrement = 1"
proof -
  have "count_list (batch_events env g) StepIncrement = 1"
    by (simp add: batch_events_def split: option.splits)
  moreover have "hd (batch_events env g) = RetMask g \<and> last (batch_events env g) = StepIncrement"
    by (simp add: batch_events_def)
  ultimately show ?thesis
    using train_one_epoch_effect [OF assms] by blast
qed

theorem step_counter_order_witness:
  "train_one_epoch toy_args (counting_env toy_counts) 0 toy_train_loader
       (initial_state 0 0 0 []) = Inr toy_epoch1
   \<and> global_step toy_epoch1 = 1
   \<and> events toy_epoch1 = batch_events (counting_env toy_counts) 0
   \<and> batch_events (counting_env toy_counts) 0 =
       [RetMask 0, OptimizerStep, LrSchedulerStep, StepIncrement]"
  using step_counter_order [OF toy_epoch_run, of 0] toy_epoch_run
  by (simp add: toy_epoch1_def batch_events_def counting_env_sel)

text \<open>
  Claim C2 as stated fails: the first training step of a run queries the mask scheduler
  with 0, not 1, and the increment comes after the step of the learning-rate scheduler.
\<close>

theorem step_counter_order_counterexample:
  "map_sum id events
     (train_one_epoch toy_args (counting_env toy_counts) 0 toy_train_loader
        (initial_state 0 0 0 []))
     = Inr [RetMask 0, OptimizerStep, LrSchedulerStep, StepIncrement]
   \<and> map_sum id events
     (train_one_epoch toy_args (counting_env toy_counts) 0 toy_train_loader
        (initial_state 0 0 0 []))
     \<noteq> Inr [StepIncrement, RetMask 1, OptimizerStep, LrSchedulerStep]"
  by (simp add: toy_epoch_run toy_epoch1_def)

section \<open>Validation (train.py 161-253)\<close>

lemma length_filter_mono:
  "(\<And>x. x \<in> set xs \<Longrightarrow> P x \<Longrightarrow> Q x) \<Longrightarrow> length (filter P xs) \<le> length (filter Q xs)"
  by (induction xs) auto

lemma topk_accuracy_fair:
  "fst (topk_accuracy outputs labels) \<le> snd (topk_accuracy outputs labels)"
proof -
  have "\<And>sc. set (topk 1 sc) \<subseteq> set (topk 5 sc)"
    unfolding topk_def by (rule set_take_subset_set_take) simp
  then show ?thesis
    unfolding topk_accuracy_def fst_conv snd_conv
    by (intro length_filter_mono) auto
qed

text \<open>
  Claim C3, as amended. With an accuracy collaborator that counts for top-5 every
  example it counts for top-1 (as top-k accuracy does), the top-5 percentage a
  validation pass reports is at least the top-1 percentage it reports and returns.
\<close>

theorem top5_at_least_top1:
  assumes "accuracy env = topk_accuracy \<or> fair_counts env"
    and "validate a env loader dest s = Inr (acc, s')"
  shows "last (top1_accuracies s') = acc \<and> acc \<le> last (top5_accuracies s')"
proof -
  from assms(1) have fair: "fair_counts env"
    by (auto simp: fair_counts_def topk_accuracy_fair)
  from validate_effect [OF assms(2)] obtain s1 t where
    vb: "validate_batches a env 0 loader
           (s, \<lparr>correct_1 = 0, correct_5 = 0, total = 0, current_losses = []\<rparr>) = Inr (s1, t)"
    and pos: "0 < total t"
    and acc: "acc = 100 * real (correct_1 t) / real (total t)"
    and t1: "top1_accuracies s' = top1_accuracies s @ [acc]"
    and t5: "top5_accuracies s' = top5_accuracies s @ [100 * real (correct_5 t) / real (total t)]"
    by blast
  from validate_batches_run [OF vb] fair have "correct_1 t \<le> correct_5 t" by simp
  then have "100 * real (correct_1 t) / real (total t) \<le> 100 * real (correct_5 t) / real (total t)"
    using pos by (simp add: divide_le_cancel)
  with acc t1 t5 show ?thesis by simp
qed

theorem top5_at_least_top1_witness:
  "accuracy topk_env = topk_accuracy
   \<and> validate toy_args topk_env [Batch2 () [0]] Passed (initial_state 0 0 0 [])
       = Inr (0, topk_validated)
   \<and> last (top1_accuracies topk_validated) = 0
   \<and> (0::real) \<le> last (top5_accuracies topk_validated)
   \<and> last (top5_accuracies topk_validated) = 100"
proof -
  have a: "accuracy topk_env = topk_accuracy" by (simp add: topk_env_def)
  from top5_at_least_top1 [OF disjI1 [OF a] topk_validate_run] a topk_validate_run
  show ?thesis by (simp add: topk_validated_def)
qed

text \<open>
  Claim C3 as stated fails: for one example whose class has the fifth highest score,
  the reported top-1 is 0 and the reported top-5 is 100.
\<close>

theorem top1_at_least_top5_counterexample:
  "validate toy_args topk_env [Batch2 () [0]] Passed (initial_state 0 0 0 [])
       = Inr (0, topk_validated)
   \<and> \<not> last (top5_accuracies topk_validated) \<le> last (top1_accuracies topk_validated)"
  using topk_validate_run by (simp add: topk_validated_def)

text \<open>
  Claim C4. A validation pass that returns leaves the step counter, the optimizer (its
  learning rate and schedule with it) and the network as they were, and all it adds to
  the log of calls is one mask query per batch, each with the counter value of entry.
\<close>

theorem validate_frame:
  assumes "validate a env loader dest s = Inr (acc, s')"
  shows "global_step s' = global_step s \<and> optimizer s' = optimizer s \<and> model s' = model s
     \<and> events s' = events s
          @ replicate (batches_run a (length loader)) (RetMask (global_step s))"
  using validate_effect [OF assms] by blast

theorem validate_frame_witness:
  "\<exists>s'. validate toy_args (counting_env toy_counts) toy_val_loader Passed toy_epoch1
           = Inr (70, s')
      \<and> global_step s' = 1 \<and> global_step toy_epoch1 = 1
      \<and> optimizer s' = optimizer toy_epoch1 \<and> model s' = model toy_epoch1
      \<and> events s' = events toy_epoch1 @ [RetMask 1]"
proof -
  let ?s = "toy_epoch1\<lparr>val_loss_avg := [6], events := events toy_epoch1 @ [RetMask 1],
              top1_accuracies := [70], top5_accuracies := [95]\<rparr>"
  have e: "validate toy_args (counting_env toy_counts) toy_val_loader Passed toy_epoch1
             = Inr (70, ?s)"
    by (simp add: toy_val_loader_def counting_validate toy_args_sel toy_epoch1_def
        toy_counts_def)
  from validate_frame [OF e] e show ?thesis
    by (intro exI [of _ ?s]) (simp add: toy_epoch1_def)
qed

text \<open>
  Claim C7. When the loop has counted at least one example, \<open>validate\<close> returns
  \<open>100 * correct_1 / total\<close>, appends it to the top-1 history and appends
  \<open>100 * correct_5 / total\<close> to the top-5 history, \<open>total\<close> being the number of
  examples of the batches gone through; 800 and 950 out of 1000 give 80 and 95.
\<close>

theorem validate_percentages:
  assumes "validate_batches a env 0 loader
             (s, \<lparr>correct_1 = 0, correct_5 = 0, total = 0, current_losses = []\<rparr>) = Inr (s1, t)"
    and "0 < total t"
  shows "\<exists>s'. validate a env loader dest s
                 = Inr (100 * real (correct_1 t) / real (total t), s')
     \<and> top1_accuracies s' = top1_accuracies s @ [100 * real (correct_1 t) / real (total t)]
     \<and> top5_accuracies s' = top5_accuracies s @ [100 * real (correct_5 t) / real (total t)]
     \<and> total t = sum_list (map batch_size (take (batches_run a (length loader)) loader))
     \<and> (total t = 1000 \<and> correct_1 t = 800 \<and> correct_5 t = 950 \<longrightarrow>
           last (top1_accuracies s') = 80 \<and> last (top5_accuracies s') = 95)"
proof -
  from validate_returns [OF assms] obtain s' where
    v: "validate a env loader dest s = Inr (100 * real (correct_1 t) / real (total t), s')"
    by blast
  from validate_effect [OF v] assms(1) have
    t1: "top1_accuracies s' = top1_accuracies s @ [100 * real (correct_1 t) / real (total t)]"
    and t5: "top5_accuracies s' = top5_accuracies s @ [100 * real (correct_5 t) / real (total t)]"
    by auto
  from validate_batches_run [OF assms(1)] have
    tot: "total t = sum_list (map batch_size (take (batches_run a (length loader)) loader))"
    by simp
  have "total t = 1000 \<and> correct_1 t = 800 \<and> correct_5 t = 950 \<longrightarrow>
           last (top1_accuracies s') = 80 \<and> last (top5_accuracies s') = 95"
    using t1 t5 by simp
  with v t1 t5 tot show ?thesis by blast
qed

theorem validate_percentages_witness:
  "\<exists>s'. validate toy_args (counting_env scenario_counts) scenario_loader Passed
           (initial_state 0 0 0 []) = Inr (80, s')
      \<and> top1_accuracies s' = [80] \<and> top5_accuracies s' = [95]"
proof -
  let ?s1 = "(initial_state 0 0 0 [])\<lparr>events := [RetMask 0]\<rparr> :: (nat, nat, nat) state"
  let ?t = "\<lparr>correct_1 = 800, correct_5 = 950, total = 1000, current_losses = [- 780]\<rparr>"
  have vb: "validate_batches toy_args (counting_env scenario_counts) 0 scenario_loader
      (initial_state 0 0 0 [],
       \<lparr>correct_1 = 0, correct_5 = 0, total = 0, current_losses = []\<rparr>) = Inr (?s1, ?t)"
    by (simp add: scenario_loader_def counting_validate_step toy_args_sel scenario_counts_def
        initial_state_def)
  have pos: "0 < total ?t" by simp
  from validate_percentages [OF vb pos, of Passed] show ?thesis
    by (auto simp: initial_state_def)
qed

section \<open>Text targets (train.py 97-102, 120, 188-193, 211)\<close>

text \<open>The two \<^verbatim>\<open>torch.where\<close> calls on their own, position by position.\<close>

lemma text_targets_positions:
  assumes shape: "length masks = length caps"
    and rows: "\<And>b. b < length caps \<Longrightarrow>
                 length (caps ! b) = max_text_seq_len a \<and> max_text_seq_len a \<le> length (masks ! b)"
    and pos: "0 < max_text_seq_len a"
  shows "\<exists>labels_text. text_targets a (Some caps) masks = Inr labels_text
           \<and> length labels_text = length caps
           \<and> (\<forall>b < length caps. length (labels_text ! b) = max_text_seq_len a
                \<and> (\<forall>j < max_text_seq_len a.
                      labels_text ! b ! j =
                        (if caps ! b ! j = 0 \<or> caps ! b ! j = 101 \<or> caps ! b ! j = 102
                            \<or> masks ! b ! (length (masks ! b) - max_text_seq_len a + j) = 1
                         then - 100 else caps ! b ! j)))"
proof -
  let ?L = "max_text_seq_len a"
  let ?c = "map (\<lambda>row. map (\<lambda>m. m = 1) (slice_last ?L row)) masks"
  let ?x = "map (map (\<lambda>c. if c = 0 \<or> c = 101 \<or> c = 102 then - 100 else c)) caps"
  let ?r = "map2 (\<lambda>cr xr. map2 (\<lambda>b y. if b then - 100 else y) cr xr) ?c ?x"
  have len: "length ?c = length ?x" using shape by simp
  have rowlen: "\<And>b. b < length ?x \<Longrightarrow> length (?c ! b) = length (?x ! b)"
    using rows shape pos by (simp add: slice_last_def)
  have eq: "text_targets a (Some caps) masks = Inr ?r"
    unfolding text_targets_def using where2_same [OF len rowlen] by (simp add: Let_def)
  have "\<forall>b < length caps. length (?r ! b) = ?L
          \<and> (\<forall>j < ?L. ?r ! b ! j =
                (if caps ! b ! j = 0 \<or> caps ! b ! j = 101 \<or> caps ! b ! j = 102
                    \<or> masks ! b ! (length (masks ! b) - ?L + j) = 1
                 then - 100 else caps ! b ! j))"
  proof (intro allI impI)
    fix b assume b: "b < length caps"
    have l1: "length (caps ! b) = ?L" and l2: "?L \<le> length (masks ! b)"
      using rows [OF b] by simp_all
    have sl: "length (slice_last ?L (masks ! b)) = ?L"
      using l2 pos by (simp add: slice_last_def)
    show "length (?r ! b) = ?L
          \<and> (\<forall>j < ?L. ?r ! b ! j =
                (if caps ! b ! j = 0 \<or> caps ! b ! j = 101 \<or> caps ! b ! j = 102
                    \<or> masks ! b ! (length (masks ! b) - ?L + j) = 1
                 then - 100 else caps ! b ! j))"
      using b shape l1 sl l2 pos by (auto simp: slice_last_def)
  qed
  moreover have "length ?r = length caps" using shape by simp
  ultimately show ?thesis using eq by blast
qed

text \<open>
  Claim C6. In a training or validation batch for which the mask scheduler returned a
  mask, with captions of \<open>max_text_seq_len\<close> columns and a mask of as many rows and at
  least as many columns, the targets the text cross-entropy is computed against are:
  -100 at a position when the caption token there is 0, 101 or 102 or when the mask is 1
  at that position counted within its last \<open>max_text_seq_len\<close> columns, and the caption
  token otherwise.
\<close>

theorem batch_text_targets:
  assumes step: "train_step a env b (s, ls) = Inr (s', ls')
     \<or> (validate_step a env b (s, t) = Inr (s', t')
         \<and> ls = current_losses t \<and> ls' = current_losses t')"
    and batch: "b = Batch3 images labels caps"
    and mask: "ret_mask env (rng s) (global_step s) = (Some masks, r)"
    and shape: "length masks = length caps"
    and rows: "\<And>i. i < length caps \<Longrightarrow>
                 length (caps ! i) = max_text_seq_len a \<and> max_text_seq_len a \<le> length (masks ! i)"
    and pos: "0 < max_text_seq_len a"
  shows "\<exists>outputs ot excl labels_text excl_term.
       forward_pass a env (model s) images (Some caps) (Some masks) = Inr (outputs, Some ot, excl)
     \<and> text_targets a (Some caps) masks = Inr labels_text
     \<and> (if exclusion_loss a
         then \<exists>ex. excl = Some ex \<and> excl_term = exclusion_weight a * (temperature a)\<^sup>2 * ex
         else excl_term = 0)
     \<and> ls' = ls @ [criterion env outputs labels + criterion_text env ot labels_text - excl_term]
     \<and> length labels_text = length caps
     \<and> (\<forall>i < length caps. length (labels_text ! i) = max_text_seq_len a
          \<and> (\<forall>j < max_text_seq_len a.
                labels_text ! i ! j =
                  (if caps ! i ! j = 0 \<or> caps ! i ! j = 101 \<or> caps ! i ! j = 102
                      \<or> masks ! i ! (length (masks ! i) - max_text_seq_len a + j) = 1
                   then - 100 else caps ! i ! j)))"
proof -
  from step_loss_terms [OF step] obtain images' labels' captions masks' r'
      outputs outputs_text excl text_term excl_term where
    up: "unpack_batch a b = Inr (images', labels', captions)"
    and rm: "ret_mask env (rng s) (global_step s) = (masks', r')"
    and fp: "forward_pass a env (model s) images' captions masks' = Inr (outputs, outputs_text, excl)"
    and tt: "case masks' of
           None \<Rightarrow> text_term = 0
         | Some mk \<Rightarrow> \<exists>ot lt. outputs_text = Some ot \<and> text_targets a captions mk = Inr lt
                         \<and> text_term = criterion_text env ot lt"
    and et: "if exclusion_loss a
         then \<exists>ex. excl = Some ex \<and> excl_term = exclusion_weight a * (temperature a)\<^sup>2 * ex
         else excl_term = 0"
    and rec: "ls' = ls @ [criterion env outputs labels' + text_term - excl_term]"
    by blast
  from rm mask have m: "masks' = Some masks" by simp
  from up batch have u: "images' = images" "labels' = labels" "captions = Some caps"
    by (auto simp: unpack_batch_def split: if_splits)
  from tt m u obtain ot lt where
    ot: "outputs_text = Some ot" and lt: "text_targets a (Some caps) masks = Inr lt"
    and tm: "text_term = criterion_text env ot lt"
    by auto
  from text_targets_positions [OF shape rows pos] lt have props:
    "length lt = length caps"
    "\<forall>i < length caps. length (lt ! i) = max_text_seq_len a
          \<and> (\<forall>j < max_text_seq_len a.
                lt ! i ! j =
                  (if caps ! i ! j = 0 \<or> caps ! i ! j = 101 \<or> caps ! i ! j = 102
                      \<or> masks ! i ! (length (masks ! i) - max_text_seq_len a + j) = 1
                   then - 100 else caps ! i ! j))"
    by auto
  from fp m u ot have fp': "forward_pass a env (model s) images (Some caps) (Some masks)
      = Inr (outputs, Some ot, excl)"
    by simp
  from rec u tm have rec': "ls' = ls @ [criterion env outputs labels + criterion_text env ot lt
      - excl_term]"
    by simp
  from fp' lt et rec' props show ?thesis by blast
qed

theorem batch_text_targets_witness:
  "ret_mask text_env 0 0 = (Some [[1, 0, 0, 1, 0], [1, 1, 0, 0, 0]], 0)
   \<and> text_batch = Batch3 () [0, 1] [[101, 7, 8], [9, 102, 0]]
   \<and> 0 < max_text_seq_len text_args
   \<and> (\<exists>s' t'. validate_step text_args text_env text_batch
                  (initial_state 0 0 0 [],
                   \<lparr>correct_1 = 0, correct_5 = 0, total = 0, current_losses = []\<rparr>) = Inr (s', t')
          \<and> current_losses t'
              = [6 + real (supervised [[- 100, - 100, 8], [9, - 100, - 100]]) - 1 / 2 * 2\<^sup>2 * 3])
   \<and> text_targets text_args (Some [[101, 7, 8], [9, 102, 0]]) [[1, 0, 0, 1, 0], [1, 1, 0, 0, 0]]
       = Inr [[- 100, - 100, 8], [9, - 100, - 100]]"
proof -
  let ?caps = "[[101, 7, 8], [9, 102, 0]] :: tensor2"
  let ?masks = "[[1, 0, 0, 1, 0], [1, 1, 0, 0, 0]] :: tensor2"
  let ?start = "initial_state 0 0 0 [] :: (nat, nat, nat) state"
  let ?zero = "\<lparr>correct_1 = 0, correct_5 = 0, total = 0, current_losses = []\<rparr>"
  let ?after = "?start\<lparr>events := [RetMask 0]\<rparr>"
  let ?tally = "\<lparr>correct_1 = 14, correct_5 = 19, total = 2, current_losses = [2]\<rparr>"
  have e: "validate_step text_args text_env text_batch (?start, ?zero) = Inr (?after, ?tally)"
    by (simp add: text_validate_step initial_state_def)
  have st: "train_step text_args text_env text_batch (?start, []) = Inr (?after, [2])
     \<or> (validate_step text_args text_env text_batch (?start, ?zero) = Inr (?after, ?tally)
         \<and> [] = current_losses ?zero \<and> [2] = current_losses ?tally)"
    by (intro disjI2 conjI e) simp_all
  have b: "text_batch = Batch3 () [0, 1] ?caps" by (simp add: text_batch_def)
  have mk: "ret_mask text_env (rng ?start) (global_step ?start) = (Some ?masks, 0)"
    by (simp add: text_env_sel initial_state_def)
  have h1: "length ?masks = length ?caps" by simp
  have h2: "length (?caps ! i) = max_text_seq_len text_args
      \<and> max_text_seq_len text_args \<le> length (?masks ! i)" if "i < length ?caps" for i
    using that by (auto simp: text_args_sel less_Suc_eq numeral_2_eq_2)
  have h3: "0 < max_text_seq_len text_args" by (simp add: text_args_sel)
  have sup: "supervised [[- 100, - 100, 8], [9, - 100, - 100]] = 2"
    by (simp add: supervised_def)
  from batch_text_targets [OF st b mk h1 h2 h3] e b h3 sup text_targets_run
  show ?thesis
    by (intro conjI exI [of _ ?after] exI [of _ ?tally]) (simp_all add: text_env_sel)
qed

section \<open>The debugging break (train.py 148-157)\<close>

text \<open>
  Claim C8. In debugging mode an epoch that ends has gone through the first
  \<open>3 * log_freq\<close> batches of the loader (all of them when the loader is shorter), and the
  mean it appends to \<open>train_loss_avg\<close> is the sum of the losses of exactly those batches,
  run in order, divided by their number.
\<close>

theorem debug_epoch_mean:
  assumes dbg: "debugging a"
    and run: "train_one_epoch a env epoch loader s = Inr s'"
  shows "0 < log_freq a
     \<and> global_step s' = global_step s + min (length loader) (3 * log_freq a)
     \<and> (\<exists>s1 losses.
           train_batches (a\<lparr>debugging := False\<rparr>) env 0 (take (3 * log_freq a) loader) (s, [])
             = Inr (s1, losses)
         \<and> length losses = min (length loader) (3 * log_freq a)
         \<and> losses \<noteq> []
         \<and> train_loss_avg s' = train_loss_avg s @ [sum_list losses / real (length losses)])"
proof -
  note te = train_one_epoch_effect [OF run]
  then have lf: "0 < log_freq a" by blast
  from te dbg have gs: "global_step s' = global_step s + min (length loader) (3 * log_freq a)"
    by (simp add: batches_run_def)
  from run obtain s1 ls where
    tb: "train_batches a env 0 loader (s, []) = Inr (s1, ls)"
    by (auto simp: train_one_epoch_def split: sum.splits)
  from run tb have ne: "ls \<noteq> []"
    by (auto simp: train_one_epoch_def mean_def split: sum.splits option.splits if_splits)
  from run tb ne have avg: "train_loss_avg s' = train_loss_avg s1 @ [sum_list ls / real (length ls)]"
    by (auto simp: train_one_epoch_def mean_def split: sum.splits option.splits if_splits)
  note tr = train_batches_run [OF tb]
  have tk: "train_batches (a\<lparr>debugging := False\<rparr>) env 0 (take (3 * log_freq a) loader) (s, [])
      = Inr (s1, ls)"
    using train_batches_debug_take [OF dbg lf, of 0 env loader "(s, [])"] lf tb by simp
  have len: "length ls = min (length loader) (3 * log_freq a)"
    using tr dbg by (simp add: batches_run_def)
  have "train_loss_avg s' = train_loss_avg s @ [sum_list ls / real (length ls)]"
    using avg tr by simp
  with lf gs tk len ne show ?thesis by blast
qed

theorem debug_epoch_mean_witness:
  "debugging (toy_args\<lparr>debugging := True\<rparr>)
   \<and> length four_batches = 4 \<and> log_freq (toy_args\<lparr>debugging := True\<rparr>) = 1
   \<and> (\<exists>s'. train_one_epoch (toy_args\<lparr>debugging := True\<rparr>) (counting_env toy_counts) 0
               four_batches (initial_state 0 0 0 []) = Inr s'
          \<and> global_step s' = 3 \<and> train_loss_avg s' = [(5 + 6 + 7) / 3])"
proof -
  let ?a = "toy_args\<lparr>debugging := True\<rparr>"
  let ?s = "(initial_state 0 0 0 [])
      \<lparr>events := [RetMask 0, OptimizerStep, LrSchedulerStep, StepIncrement,
                  RetMask 1, OptimizerStep, LrSchedulerStep, StepIncrement,
                  RetMask 2, OptimizerStep, LrSchedulerStep, StepIncrement],
       model := 3, optimizer := 3, global_step := 3, train_loss_avg := [6]\<rparr>
      :: (nat, nat, nat) state"
  have sel: "\<not> multimodal ?a" "\<not> exclusion_loss ?a" "0 < log_freq ?a" "debugging ?a"
    "log_freq ?a = 1"
    by (simp_all add: toy_args_def)
  have e: "train_one_epoch ?a (counting_env toy_counts) 0 four_batches (initial_state 0 0 0 [])
      = Inr ?s"
    by (simp add: train_one_epoch_def four_batches_def counting_train_step sel
        counting_env_sel mean_def initial_state_def toy_counts_def)
  from debug_epoch_mean [OF sel(4) e] e sel show ?thesis
    by (intro conjI exI [of _ ?s]) (simp_all add: four_batches_def initial_state_def)
qed

section \<open>The inference prompt (inference.py 127-134)\<close>

text \<open>When a prompt is constructed at all.\<close>

lemma prompt_constructed_iff:
  assumes "inference_mode a = ''multimodal''"
  shows "(\<exists>prompt. return_prepared_inputs a vocab_size special_tokens raw = Inr (Some prompt))
     \<longleftrightarrow> 0 < max_text_seq_len a \<and> 3 \<le> length special_tokens
          \<and> (masking_behavior a \<noteq> ''constant'' \<longrightarrow> 2 \<le> vocab_size)"
  using assms
  by (auto simp: return_prepared_inputs_def randint_def Let_def split: if_splits)

text \<open>
  Claim C9. In multimodal inference with a prompt of at least one position, the prompt is
  a fill, all 1 under \<^verbatim>\<open>constant\<close> and otherwise draws from \<open>0, ..., vocab_size - 2\<close>,
  whose first position is then overwritten with \<^verbatim>\<open>special_tokens[1]\<close> and whose last
  position is then overwritten with \<^verbatim>\<open>special_tokens[2]\<close>.
\<close>

theorem prompt_construction:
  assumes mm: "inference_mode a = ''multimodal''"
    and len: "0 < max_text_seq_len a"
    and toks: "3 \<le> length special_tokens"
    and voc: "masking_behavior a \<noteq> ''constant'' \<longrightarrow> 2 \<le> vocab_size"
  shows "\<exists>fill prompt.
       return_prepared_inputs a vocab_size special_tokens raw = Inr (Some prompt)
     \<and> length fill = max_text_seq_len a
     \<and> (if masking_behavior a = ''constant'' then fill = replicate (max_text_seq_len a) 1
         else \<forall>k < max_text_seq_len a.
                fill ! k = int (raw k mod (vocab_size - 1))
                \<and> 0 \<le> fill ! k \<and> fill ! k \<le> int vocab_size - 2)
     \<and> prompt = (fill[0 := special_tokens ! 1])[max_text_seq_len a - 1 := special_tokens ! 2]
     \<and> prompt ! (max_text_seq_len a - 1) = special_tokens ! 2
     \<and> (2 \<le> max_text_seq_len a \<longrightarrow> prompt ! 0 = special_tokens ! 1)
     \<and> (\<forall>k. 0 < k \<and> k < max_text_seq_len a - 1 \<longrightarrow> prompt ! k = fill ! k)"
proof -
  let ?L = "max_text_seq_len a"
  let ?fill = "if masking_behavior a = ''constant'' then replicate ?L 1
               else map (\<lambda>k. int (0 + raw k mod (vocab_size - 1 - 0))) [0..<?L]"
  let ?prompt = "(?fill[0 := special_tokens ! 1])[?L - 1 := special_tokens ! 2]"
  have fl: "length ?fill = ?L" by simp
  have ne: "?fill \<noteq> []" using len by auto
  have r: "return_prepared_inputs a vocab_size special_tokens raw = Inr (Some ?prompt)"
    using mm len toks voc ne
    by (auto simp: return_prepared_inputs_def randint_def Let_def)
  have rng: "masking_behavior a \<noteq> ''constant'' \<Longrightarrow> k < ?L \<Longrightarrow>
      ?fill ! k = int (raw k mod (vocab_size - 1))
      \<and> 0 \<le> ?fill ! k \<and> ?fill ! k \<le> int vocab_size - 2" for k
  proof -
    assume nc: "masking_behavior a \<noteq> ''constant''" and k: "k < ?L"
    with voc have v: "2 \<le> vocab_size" by simp
    then have "raw k mod (vocab_size - 1) < vocab_size - 1" by simp
    then have "int (raw k mod (vocab_size - 1)) \<le> int vocab_size - 2" using v by linarith
    with nc k show ?thesis by simp
  qed
  have p1: "?prompt ! (?L - 1) = special_tokens ! 2"
    using len fl by (simp del: One_nat_def)
  have p2: "2 \<le> ?L \<longrightarrow> ?prompt ! 0 = special_tokens ! 1"
    using fl by (auto simp: nth_list_update)
  have p3: "\<forall>k. 0 < k \<and> k < ?L - 1 \<longrightarrow> ?prompt ! k = ?fill ! k"
    using fl by (auto simp: nth_list_update)
  have p0: "if masking_behavior a = ''constant'' then ?fill = replicate ?L 1
         else \<forall>k < ?L. ?fill ! k = int (raw k mod (vocab_size - 1))
                \<and> 0 \<le> ?fill ! k \<and> ?fill ! k \<le> int vocab_size - 2"
    using rng by (cases "masking_behavior a = ''constant''") simp_all
  from r fl p0 p1 p2 p3 show ?thesis by blast
qed

theorem prompt_construction_witness:
  "inference_mode toy_args = ''multimodal'' \<and> max_text_seq_len toy_args = 3
   \<and> masking_behavior toy_args = ''constant''
   \<and> return_prepared_inputs toy_args 10 [0, 101, 102] toy_raw = Inr (Some [101, 1, 102])
   \<and> return_prepared_inputs (toy_args\<lparr>masking_behavior := ''random''\<rparr>) 10 [0, 101, 102] toy_raw
       = Inr (Some [101, 5, 102])"
proof -
  have "\<exists>fill prompt.
       return_prepared_inputs toy_args 10 [0, 101, 102] toy_raw = Inr (Some prompt)
     \<and> length fill = max_text_seq_len toy_args
     \<and> (if masking_behavior toy_args = ''constant''
         then fill = replicate (max_text_seq_len toy_args) 1
         else \<forall>k < max_text_seq_len toy_args.
                fill ! k = int (toy_raw k mod (10 - 1))
                \<and> 0 \<le> fill ! k \<and> fill ! k \<le> int 10 - 2)
     \<and> prompt = (fill[0 := [0, 101, 102] ! 1])[max_text_seq_len toy_args - 1 := [0, 101, 102] ! 2]
     \<and> prompt ! (max_text_seq_len toy_args - 1) = [0, 101, 102] ! 2
     \<and> (2 \<le> max_text_seq_len toy_args \<longrightarrow> prompt ! 0 = [0, 101, 102] ! 1)
     \<and> (\<forall>k. 0 < k \<and> k < max_text_seq_len toy_args - 1 \<longrightarrow> prompt ! k = fill ! k)"
    by (rule prompt_construction) (simp_all add: toy_args_sel)
  moreover have "return_prepared_inputs toy_args 10 [0, 101, 102] toy_raw
      = Inr (Some [101, 1, 102])"
    by (simp add: return_prepared_inputs_def toy_args_sel numeral_3_eq_3)
  moreover have "return_prepared_inputs (toy_args\<lparr>masking_behavior := ''random''\<rparr>) 10
      [0, 101, 102] toy_raw = Inr (Some [101, 5, 102])"
    by (simp add: return_prepared_inputs_def randint_def toy_args_def toy_raw_def upt3)
  ultimately show ?thesis by (simp add: toy_args_sel)
qed

section \<open>History lengths (train.py 161-162, 234-244, 297-299)\<close>

text \<open>
  Claim C10. At the end of a run the top-1 and top-5 histories hold \<open>no_epochs + 1\<close>
  entries and \<open>val_loss_avg\<close> holds \<open>no_epochs\<close>: the mean loss of the test pass went
  to the default-argument list of \<open>validate\<close>.
\<close>

theorem history_lengths:
  assumes "train_main a env trl vll tel (initial_state m0 p0 r0 d0) = Inr s'"
  shows "length (top1_accuracies s') = no_epochs a + 1
     \<and> length (top5_accuracies s') = no_epochs a + 1
     \<and> length (val_loss_avg s') = no_epochs a
     \<and> length (train_loss_avg s') = no_epochs a
     \<and> (\<exists>avg. validate_default s' = d0 @ [avg])"
proof -
  let ?n = "no_epochs a"
  from assms obtain s where
    loop: "run_epochs a env trl vll [0..<?n] (initial_state m0 p0 r0 d0) = Inr s"
    by (auto simp: train_main_def split: sum.splits)
  with assms obtain acc where
    test: "validate a env tel DefaultArg s = Inr (acc, s')"
    by (auto simp: train_main_def split: sum.splits)
  from run_epochs_lengths [OF loop] have l:
    "length (top1_accuracies s) = ?n" "length (top5_accuracies s) = ?n"
    "length (val_loss_avg s) = ?n" "length (train_loss_avg s) = ?n"
    "validate_default s = d0"
    by (simp_all add: initial_state_def)
  from validate_effect [OF test] obtain avg a5 where
    "top1_accuracies s' = top1_accuracies s @ [acc]"
    "top5_accuracies s' = top5_accuracies s @ [a5]"
    "val_loss_avg s' = val_loss_avg s"
    "validate_default s' = validate_default s @ [avg]"
    "train_loss_avg s' = train_loss_avg s"
    by auto
  with l show ?thesis by simp
qed

theorem history_lengths_witness:
  "train_main toy_args (counting_env toy_counts) toy_train_loader toy_val_loader toy_val_loader
       (initial_state 0 0 0 []) = Inr toy_final
   \<and> no_epochs toy_args = 3
   \<and> length (top1_accuracies toy_final) = 4 \<and> length (top5_accuracies toy_final) = 4
   \<and> length (val_loss_avg toy_final) = 3 \<and> validate_default toy_final = [] @ [5]"
  using history_lengths [OF toy_main_run] toy_main_run
  by (simp add: toy_final_def toy_args_sel)

end
